theory Spec2Isabelle
  imports Complex_Main "HOL-Library.Multiset"
begin

section \<open>The static PQ load of \<open>andes/models/pq.py\<close>\<close>

text \<open>
  The load model works on column vectors: one entry per load instance for every parameter
  and service, and the global vectors \<open>dae.y\<close> (iterate) and \<open>dae.g\<close> (algebraic residual)
  indexed by the addresses \<open>self.a\<close> and \<open>self.v\<close> of the bus angle and bus voltage.
  A vector is a list of reals: the reals are the doubles of the source without rounding.
  Addresses are natural numbers: the system hands out non-negative offsets.
\<close>

type_synonym vec = "real list"

subsection \<open>Errors\<close>

text \<open>
  Neither \<open>gcall\<close> nor \<open>gycall\<close> raises, catches or retries anything itself; what can go
  wrong in them is an exception of a library call, which leaves the method at once. The
  first three constructors name the event that makes the library raise, not the Python
  class it uses; none of them carries an instance or a variable. \<open>NumericFailure\<close> is the
  failure of section 7 of the spec, which carries the offending instance and variable.
  A result \<open>Inl e\<close> is a call that raised and carries no state; \<open>Inr x\<close> is a call that
  returned.
\<close>

datatype error =
    OutOfRange
  | SizeMismatch
  | ZeroDivisor
  | NumericFailure nat string

text \<open>Sequencing: the first exception ends the method.\<close>

definition and_then :: "error + 'a \<Rightarrow> ('a \<Rightarrow> error + 'b) \<Rightarrow> error + 'b" where
  "and_then r f = (case r of Inl e \<Rightarrow> Inl e | Inr x \<Rightarrow> f x)"

subsection \<open>Library operations on vectors\<close>

text \<open>
  \<open>cvxopt.mul\<close> and \<open>cvxopt.div\<close> are the elementwise product and quotient of two
  matrices of the same size, and \<open>+=\<close> the elementwise sum; operands of different sizes
  are refused here (cvxopt reads a one-element operand as a scalar, which no call of
  this model relies on). A quotient by a zero element raises.
\<close>

definition mul :: "vec \<Rightarrow> vec \<Rightarrow> error + vec" where
  "mul xs ys = (if length xs = length ys then Inr (map2 (*) xs ys) else Inl SizeMismatch)"

definition ediv :: "vec \<Rightarrow> vec \<Rightarrow> error + vec" where
  "ediv xs ys =
     (if length xs \<noteq> length ys then Inl SizeMismatch
      else if list_all (\<lambda>d. d \<noteq> 0) ys then Inr (map2 (/) xs ys)
      else Inl ZeroDivisor)"

definition iadd :: "vec \<Rightarrow> vec \<Rightarrow> error + vec" where
  "iadd xs ys = (if length xs = length ys then Inr (map2 (+) xs ys) else Inl SizeMismatch)"

text \<open>\<open>x ** 2\<close> and \<open>2 * x\<close> on a matrix are elementwise.\<close>

definition sq :: "vec \<Rightarrow> vec" where
  "sq xs = map (\<lambda>x. x ^ 2) xs"

definition twice :: "vec \<Rightarrow> vec" where
  "twice xs = map (\<lambda>x. 2 * x) xs"

text \<open>\<open>dae.y[self.v]\<close>: the entries of a vector at a list of addresses; an address past the
  end raises.\<close>

definition getitem :: "vec \<Rightarrow> nat list \<Rightarrow> error + vec" where
  "getitem xs ix =
     (if list_all (\<lambda>i. i < length xs) ix then Inr (map (\<lambda>i. xs ! i) ix) else Inl OutOfRange)"

text \<open>The truth value of a cvxopt matrix (\<open>if self.v0:\<close>): some entry is non-zero. A service
  that was never assigned is the empty vector, which is false.\<close>

definition truthy :: "vec \<Rightarrow> bool" where
  "truthy xs = list_ex (\<lambda>x. x \<noteq> 0) xs"

text \<open>\<open>matrix(x, (n, 1), 'd')\<close>: the column of \<open>n\<close> entries of \<open>x\<close>; another size raises.\<close>

definition matrix_n :: "vec \<Rightarrow> nat \<Rightarrow> error + vec" where
  "matrix_n xs k = (if length xs = k then Inr xs else Inl SizeMismatch)"

subsection \<open>The helpers of \<open>andes/utils/math.py\<close>\<close>

text \<open>Modelled from the spec: \<open>ones\<close> and \<open>zeros\<close> of \<open>andes/utils/math.py\<close> are not among
  the sources. \<open>ones(n, 1)\<close> and \<open>zeros(n, 1)\<close> are the columns of \<open>n\<close> ones and \<open>n\<close>
  zeros, one entry per instance (section 3: array length equals instance count).\<close>

definition ones :: "nat \<Rightarrow> vec" where
  "ones k = replicate k 1"

definition zeros :: "nat \<Rightarrow> vec" where
  "zeros k = replicate k 0"

text \<open>\<open>altb\<close> and \<open>agtb\<close> of \<open>andes/utils/math.py\<close> are not among the sources, and the
  spec does not describe them (its section 4.5 is about the comparator of the other load
  model). \<open>pq.py\<close> imports them under the names a-less-than-b and a-greater-than-b, and
  that is what they are here: the elementwise strict comparisons, as reals, 1 where the
  comparison holds and 0 where it does not.\<close>

definition altb :: "vec \<Rightarrow> vec \<Rightarrow> error + vec" where
  "altb xs ys =
     (if length xs = length ys
      then Inr (map2 (\<lambda>x b. if x < b then 1 else 0) xs ys) else Inl SizeMismatch)"

definition agtb :: "vec \<Rightarrow> vec \<Rightarrow> error + vec" where
  "agtb xs ys =
     (if length xs = length ys
      then Inr (map2 (\<lambda>x b. if x > b then 1 else 0) xs ys) else Inl SizeMismatch)"

text \<open>Modelled from the spec: \<open>aorb\<close> and \<open>nota\<close> of \<open>andes/utils/math.py\<close> are not among
  the sources. They are the logical or and the logical not of indicator vectors, again
  as reals 0 and 1 (section 4.5: indicators are ordinary real-valued quantities).\<close>

definition aorb :: "vec \<Rightarrow> vec \<Rightarrow> error + vec" where
  "aorb xs ys =
     (if length xs = length ys
      then Inr (map2 (\<lambda>x b. if x \<noteq> 0 \<or> b \<noteq> 0 then 1 else 0) xs ys)
      else Inl SizeMismatch)"

definition nota :: "vec \<Rightarrow> vec" where
  "nota xs = map (\<lambda>x. if x \<noteq> 0 then 0 else 1) xs"

subsection \<open>The model, the configuration and the global arrays\<close>

text \<open>The attributes of a \<open>PQ\<close> object that \<open>gcall\<close> and \<open>gycall\<close> read or write.\<close>

record PQ =
  n :: nat
  a :: "nat list"
  v :: "nat list"
  u :: vec
  p :: vec
  q :: vec
  vmax :: vec
  vmin :: vec
  p0 :: vec
  q0 :: vec
  v0 :: vec
  below :: vec
  above :: vec

text \<open>\<open>self.system.config\<close>.\<close>

record config =
  forcez :: bool
  forcepq :: bool

text \<open>The \<open>dae\<close> object: the iterate \<open>y\<close>, the residual \<open>g\<close>, its length \<open>m\<close> and the block
  \<open>Gy\<close> of the Jacobian as the list of stamped (row, column, value) triplets.\<close>

record DAE =
  y :: vec
  g :: vec
  m :: nat
  Gy :: "(nat \<times> nat \<times> real) list"

text \<open>Modelled from the spec: \<open>dae.add_jac\<close> is not among the sources. Section 4.4 step 2:
  a value is stamped into the block at (row, column) accumulating (adding), never
  overwriting, since several models may stamp one cell. The block keeps the triplets, and
  the value of a cell is the sum of the values stamped there.\<close>

definition add_jac :: "DAE \<Rightarrow> vec \<Rightarrow> nat list \<Rightarrow> nat list \<Rightarrow> error + DAE" where
  "add_jac dae vals rows cols =
     (if length vals = length rows \<and> length rows = length cols
      then Inr (dae\<lparr>Gy := Gy dae @ zip rows (zip cols vals)\<rparr>) else Inl SizeMismatch)"

definition jac_cell :: "(nat \<times> nat \<times> real) list \<Rightarrow> nat \<Rightarrow> nat \<Rightarrow> real" where
  "jac_cell ts r c = sum_list (map (\<lambda>(i, j, x). x) (filter (\<lambda>(i, j, x). i = r \<and> j = c) ts))"

subsection \<open>\<open>PQ.init0\<close> and \<open>PQ.init1\<close>\<close>

definition init0 :: "PQ \<Rightarrow> DAE \<Rightarrow> error + PQ" where
  "init0 self dae =
     and_then (matrix_n (p self) (n self)) (\<lambda>p0'.
     and_then (matrix_n (q self) (n self)) (\<lambda>q0'.
     Inr (self\<lparr>p0 := p0', q0 := q0'\<rparr>)))"

definition init1 :: "PQ \<Rightarrow> DAE \<Rightarrow> error + PQ" where
  "init1 self dae =
     and_then (getitem (y dae) (v self)) (\<lambda>yv.
     Inr (self\<lparr>v0 := yv\<rparr>))"

subsection \<open>\<open>PQ.gcall\<close>\<close>

text \<open>Lines 83 to 92, the branch taken when neither flag is set: the blend factor \<open>k\<close>
  from the three indicators. \<open>self.below\<close> and \<open>self.above\<close> are stored; \<open>normal\<close> is
  a local of the source and is returned beside \<open>k\<close>. Each line of the source is one
  line here, its inner calls first.\<close>

definition gcall_switch :: "PQ \<Rightarrow> DAE \<Rightarrow> error + (PQ \<times> vec \<times> vec)" where
  "gcall_switch self dae =
     (let k = zeros (n self) in
      and_then (getitem (y dae) (v self)) (\<lambda>yv.
      and_then (altb yv (vmin self)) (\<lambda>bl.
      let self = self\<lparr>below := bl\<rparr> in
      and_then (getitem (y dae) (v self)) (\<lambda>yv.
      and_then (ediv (sq yv) (sq (vmin self))) (\<lambda>d.
      and_then (mul (below self) d) (\<lambda>t.
      and_then (iadd k t) (\<lambda>k.
      and_then (getitem (y dae) (v self)) (\<lambda>yv.
      and_then (agtb yv (vmax self)) (\<lambda>ab.
      let self = self\<lparr>above := ab\<rparr> in
      and_then (getitem (y dae) (v self)) (\<lambda>yv.
      and_then (ediv (sq yv) (sq (vmax self))) (\<lambda>d.
      and_then (mul (above self) d) (\<lambda>t.
      and_then (iadd k t) (\<lambda>k.
      and_then (aorb (below self) (above self)) (\<lambda>ba.
      let normal = nota ba in
      and_then (mul normal (ones (n self))) (\<lambda>t.
      and_then (iadd k t) (\<lambda>k.
      Inr (self, k, normal)))))))))))))))))"

text \<open>Lines 75 to 92: the blend factor in the three configurations.\<close>

definition gcall_k :: "config \<Rightarrow> PQ \<Rightarrow> DAE \<Rightarrow> error + (PQ \<times> vec)" where
  "gcall_k cfg self dae =
     (let k = ones (n self) in
      if forcez cfg then
        (if truthy (v0 self) then
           and_then (getitem (y dae) (v self)) (\<lambda>yv.
           and_then (ediv (sq yv) (sq (v0 self))) (\<lambda>k.
           Inr (self, k)))
         else Inr (self, k))
      else if forcepq cfg then Inr (self, k)
      else
        and_then (gcall_switch self dae) (\<lambda>(self, k, normal).
        Inr (self, k)))"

text \<open>Lines 94 to 96: the status flag scales \<open>k\<close>, and the scaled powers are stored.\<close>

definition gcall_scale :: "PQ \<Rightarrow> vec \<Rightarrow> error + PQ" where
  "gcall_scale self k =
     and_then (mul (u self) k) (\<lambda>k.
     and_then (mul k (p self)) (\<lambda>p0'.
     let self = self\<lparr>p0 := p0'\<rparr> in
     and_then (mul k (q self)) (\<lambda>q0'.
     Inr (self\<lparr>q0 := q0'\<rparr>))))"

text \<open>Lines 98 to 101, the loop over the instances: \<open>dae.g[a] += p; dae.g[v] += q\<close>.
  \<open>zip\<close> stops at the shortest column; an address past the end of \<open>g\<close> raises.\<close>

definition g_add :: "vec \<Rightarrow> nat \<Rightarrow> real \<Rightarrow> error + vec" where
  "g_add gs i x = (if i < length gs then Inr (gs[i := gs ! i + x]) else Inl OutOfRange)"

fun g_loop :: "vec \<Rightarrow> (nat \<times> nat \<times> real \<times> real) list \<Rightarrow> error + vec" where
  "g_loop gs [] = Inr gs"
| "g_loop gs ((ai, vi, pv, qv) # rest) =
     and_then (g_add gs ai pv) (\<lambda>gs.
     and_then (g_add gs vi qv) (\<lambda>gs.
     g_loop gs rest))"

definition g_dense :: "PQ \<Rightarrow> DAE \<Rightarrow> error + DAE" where
  "g_dense self dae =
     and_then (g_loop (g dae) (zip (a self) (zip (v self) (zip (p0 self) (q0 self))))) (\<lambda>gs.
     Inr (dae\<lparr>g := gs\<rparr>))"

text \<open>Lines 105 to 113. \<open>coo_matrix((data, (row, zeros(n))), shape=(m, 1)).toarray()\<close> is the
  column of length \<open>m\<close> whose entry \<open>i\<close> is the sum of the data with row \<open>i\<close>; scipy raises
  when the data, the rows and the \<open>n\<close> column indices differ in length or a row is not
  below \<open>m\<close>.\<close>

definition coo_toarray :: "vec \<Rightarrow> nat list \<Rightarrow> nat \<Rightarrow> nat \<Rightarrow> error + vec" where
  "coo_toarray dat rows ncols mm =
     (if length dat \<noteq> length rows \<or> length rows \<noteq> ncols then Inl SizeMismatch
      else if list_all (\<lambda>i. i < mm) rows
      then Inr (map (\<lambda>i. sum_list (map snd (filter (\<lambda>(r, x). r = i) (zip rows dat)))) [0..<mm])
      else Inl OutOfRange)"

definition g_sparse :: "PQ \<Rightarrow> DAE \<Rightarrow> error + DAE" where
  "g_sparse self dae =
     and_then (coo_toarray (p0 self) (a self) (n self) (m dae)) (\<lambda>pc.
     and_then (coo_toarray (q0 self) (v self) (n self) (m dae)) (\<lambda>qc.
     and_then (iadd (g dae) pc) (\<lambda>gs.
     and_then (iadd gs qc) (\<lambda>gs.
     Inr (dae\<lparr>g := gs\<rparr>)))))"

text \<open>The whole method: lines 75 to 113.\<close>

definition gcall :: "config \<Rightarrow> PQ \<Rightarrow> DAE \<Rightarrow> error + (PQ \<times> DAE)" where
  "gcall cfg self dae =
     and_then (gcall_k cfg self dae) (\<lambda>(self, k).
     and_then (gcall_scale self k) (\<lambda>self.
     and_then (if n self \<le> 400 then g_dense self dae else g_sparse self dae) (\<lambda>dae.
     Inr (self, dae))))"

subsection \<open>\<open>PQ.gycall\<close>\<close>

text \<open>The early \<open>return\<close> under \<open>forcepq\<close> leaves both objects as they are.\<close>

definition gycall :: "config \<Rightarrow> PQ \<Rightarrow> DAE \<Rightarrow> error + DAE" where
  "gycall cfg self dae =
     (let k = zeros (n self) in
      if forcepq cfg then Inr dae
      else
        and_then
          (if forcez cfg then
             (if truthy (v0 self) then
                and_then (getitem (y dae) (v self)) (\<lambda>yv.
                ediv (twice yv) (sq (v0 self)))
              else Inr k)
           else
             and_then (getitem (y dae) (v self)) (\<lambda>yv.
             and_then (ediv (twice yv) (sq (vmin self))) (\<lambda>d.
             and_then (mul (below self) d) (\<lambda>t.
             and_then (iadd k t) (\<lambda>k.
             and_then (getitem (y dae) (v self)) (\<lambda>yv.
             and_then (ediv (twice yv) (sq (vmax self))) (\<lambda>d.
             and_then (mul (above self) d) (\<lambda>t.
             iadd k t)))))))) (\<lambda>k.
        and_then (mul (u self) k) (\<lambda>k.
        and_then (mul (p self) k) (\<lambda>pk.
        and_then (add_jac dae pk (a self) (v self)) (\<lambda>dae.
        and_then (mul (q self) k) (\<lambda>qk.
        add_jac dae qk (v self) (v self)))))))"

subsection \<open>\<open>PQNew\<close>: the comparator and the residual expressions\<close>

text \<open>Modelled from the spec: \<open>Comparer\<close> of \<open>andes/core/limiter.py\<close> is not among the
  sources. Section 4.5: \<open>evaluate(value, lower, upper)\<close> gives the indicators below, within
  and above as reals, with \<open>value <= lower\<close> below, \<open>lower < value < upper\<close> within and
  \<open>value >= upper\<close> above. The expressions of \<open>PQNew\<close> call them \<open>v_cmp_zl\<close>,
  \<open>v_cmp_zi\<close> and \<open>v_cmp_zu\<close>.\<close>

record flags =
  zl :: real
  zi :: real
  zu :: real

definition Comparer :: "real \<Rightarrow> real \<Rightarrow> real \<Rightarrow> flags" where
  "Comparer val lower upper =
     \<lparr>zl = (if val \<le> lower then 1 else 0),
      zi = (if lower < val \<and> val < upper then 1 else 0),
      zu = (if val \<ge> upper then 1 else 0)\<rparr>"

text \<open>Lines 155 to 161: \<open>a.e_symbolic\<close> and \<open>v.e_symbolic\<close>, for one instance with status
  \<open>us\<close>, power \<open>pw\<close> (\<open>p\<close> in the first, \<open>q\<close> in the second), voltage \<open>vs\<close> and
  the thresholds. A zero threshold has no finite quotient.\<close>

definition e_symbolic :: "real \<Rightarrow> real \<Rightarrow> real \<Rightarrow> real \<Rightarrow> real \<Rightarrow> real option" where
  "e_symbolic us pw vs lower upper =
     (let v_cmp = Comparer vs lower upper in
      if lower = 0 \<or> upper = 0 then None
      else Some (us * (pw * zi v_cmp +
                       pw * zl v_cmp * (vs ^ 2 / lower ^ 2) +
                       pw * zu v_cmp * (vs ^ 2 / upper ^ 2))))"

section \<open>Well-formed inputs\<close>

text \<open>Every column of the model has one entry per instance (section 3), the addresses lie
  inside the global vectors, and \<open>dae.m\<close> is the length of the residual.\<close>

definition pq_ok :: "PQ \<Rightarrow> DAE \<Rightarrow> bool" where
  "pq_ok self dae \<longleftrightarrow>
     length (a self) = n self \<and> length (v self) = n self \<and> length (u self) = n self \<and>
     length (p self) = n self \<and> length (q self) = n self \<and>
     length (vmin self) = n self \<and> length (vmax self) = n self \<and>
     list_all (\<lambda>i. i < length (y dae)) (v self) \<and>
     list_all (\<lambda>i. i < length (g dae)) (a self) \<and>
     list_all (\<lambda>i. i < length (g dae)) (v self) \<and>
     m dae = length (g dae)"

text \<open>No threshold is zero, so that the quotients by \<open>vmin ** 2\<close> and \<open>vmax ** 2\<close> are finite.\<close>

definition limits_ok :: "PQ \<Rightarrow> bool" where
  "limits_ok self \<longleftrightarrow>
     list_all (\<lambda>d. d \<noteq> 0) (vmin self) \<and> list_all (\<lambda>d. d \<noteq> 0) (vmax self)"

text \<open>The instances handed to the loop of lines 99 to 101 address entries of a residual of
  length \<open>len\<close>.\<close>

definition in_range :: "nat \<Rightarrow> (nat \<times> nat \<times> real \<times> real) list \<Rightarrow> bool" where
  "in_range len insts = list_all (\<lambda>(ai, vi, pv, qv). ai < len \<and> vi < len) insts"

text \<open>What a list of instances adds at offset \<open>j\<close>: the active powers of the instances whose
  angle address is \<open>j\<close> and the reactive powers of those whose voltage address is \<open>j\<close>.\<close>

definition contrib :: "(nat \<times> nat \<times> real \<times> real) list \<Rightarrow> nat \<Rightarrow> real" where
  "contrib insts j =
     sum_list (map (\<lambda>(ai, vi, pv, qv). (if ai = j then pv else 0) + (if vi = j then qv else 0))
                   insts)"

section \<open>The scenario of the spec: one load on one bus\<close>

text \<open>One enabled load with the default thresholds 0.9 and 1.1, on a bus whose angle is at
  address 0 and whose voltage is at address 1.\<close>

definition one_load :: PQ where
  "one_load = \<lparr>n = 1, a = [0], v = [1], u = [1], p = [2], q = [1 / 2],
                vmax = [11 / 10], vmin = [9 / 10],
                p0 = [], q0 = [], v0 = [], below = [], above = []\<rparr>"

definition one_bus :: "real \<Rightarrow> DAE" where
  "one_bus volt = \<lparr>y = [0, volt], g = [0, 0], m = 2, Gy = []\<rparr>"

text \<open>More loads than the threshold of 400, all on the one bus.\<close>

definition many_loads :: "nat \<Rightarrow> PQ" where
  "many_loads k = \<lparr>n = k, a = replicate k 0, v = replicate k 1, u = replicate k 1,
                    p = replicate k 2, q = replicate k (1 / 2),
                    vmax = replicate k (11 / 10), vmin = replicate k (9 / 10),
                    p0 = [], q0 = [], v0 = [], below = [], above = []\<rparr>"

text \<open>The default configuration: neither flag is set.\<close>

definition default_config :: config where
  "default_config = \<lparr>forcez = False, forcepq = False\<rparr>"

text \<open>The other configurations.\<close>

definition forcez_config :: config where
  "forcez_config = \<lparr>forcez = True, forcepq = False\<rparr>"

definition forcepq_config :: config where
  "forcepq_config = \<lparr>forcez = False, forcepq = True\<rparr>"

definition both_config :: config where
  "both_config = \<lparr>forcez = True, forcepq = True\<rparr>"

text \<open>The load after a residual pass at voltage 1: the powers and the indicators are stored,
  with the reference voltage \<open>ref\<close> as \<open>init1\<close> would have set it.\<close>

definition stored_load :: "real \<Rightarrow> PQ" where
  "stored_load ref = one_load\<lparr>p0 := [2], q0 := [1 / 2], v0 := [ref], below := [0], above := [0]\<rparr>"

section \<open>The derivative formula of the switching branch\<close>

text \<open>The partial derivative with respect to the voltage of the residual of instance \<open>i\<close>,
  with the stored indicators held constant: \<open>u * pw * (below * 2v / vmin^2 + above * 2v /
  vmax^2)\<close>, where \<open>pw\<close> is the column \<open>p\<close> for the active and \<open>q\<close> for the reactive
  power.\<close>

definition dg_dv :: "PQ \<Rightarrow> DAE \<Rightarrow> vec \<Rightarrow> nat \<Rightarrow> real" where
  "dg_dv self dae pw i =
     u self ! i * pw ! i *
       (below self ! i * (2 * y dae ! (v self ! i)) / (vmin self ! i)\<^sup>2 +
        above self ! i * (2 * y dae ! (v self ! i)) / (vmax self ! i)\<^sup>2)"

section \<open>Model composition\<close>

text \<open>
  The declarations of a model as \<open>andes/models/experimental/TCSCbase.py\<close> writes them:
  parameters with a kind (section 4.1), external references bound through an index column
  to a field of another model (section 4.2), and variables with an initializer and a
  residual expression (section 3). An expression is the tagged tree of section 9.
\<close>

datatype kind = Numeric | IndexReference | Descriptive

datatype expr =
    Num real
  | Ref string
  | Add expr expr
  | Sub expr expr
  | Mul expr expr
  | Div expr expr

datatype decl =
    Param string kind
  | Ext string string string string
  | Var string expr expr

record model =
  model_name :: string
  decls :: "decl list"

text \<open>The names an expression refers to, left to right.\<close>

fun names :: "expr \<Rightarrow> string list" where
  "names (Num c) = []"
| "names (Ref x) = [x]"
| "names (Add e f) = names e @ names f"
| "names (Sub e f) = names e @ names f"
| "names (Mul e f) = names e @ names f"
| "names (Div e f) = names e @ names f"

text \<open>The name a declaration introduces: a parameter or variable declared by the model, or
  the local name of a bound reference. In \<open>Ext name target field column\<close> the reference
  \<open>name\<close> reads \<open>field\<close> of the model \<open>target\<close> through the index column \<open>column\<close>.\<close>

fun decl_name :: "decl \<Rightarrow> string" where
  "decl_name (Param x k) = x"
| "decl_name (Ext x target field column) = x"
| "decl_name (Var x init resid) = x"

text \<open>The names a declaration refers to: the index column of a reference, and the names in
  the two expressions of a variable.\<close>

fun decl_refs :: "decl \<Rightarrow> string list" where
  "decl_refs (Param x k) = []"
| "decl_refs (Ext x target field column) = [column]"
| "decl_refs (Var x init resid) = names init @ names resid"

definition known :: "model \<Rightarrow> string list" where
  "known mo = map decl_name (decls mo)"

definition referenced :: "model \<Rightarrow> string list" where
  "referenced mo = concat (map decl_refs (decls mo))"

text \<open>The error taxonomy of section 7 at composition time; \<open>ModelCompositionError\<close> is the
  aggregate that wraps the causes.\<close>

datatype cause =
    DuplicateDeclaration string
  | UnresolvedReference string
  | DuplicateKey string
  | UndefinedSymbol string

datatype composition_error = ModelCompositionError "cause list"

text \<open>Modelled from the spec: the registry (\<open>declare\<close>) is not among the sources. Section
  4.1: declaring a duplicate name fails with DuplicateDeclaration. The causes are the
  names declared again after their first declaration.\<close>

fun duplicates :: "string list \<Rightarrow> string list" where
  "duplicates [] = []"
| "duplicates (x # xs) = (if x \<in> set xs then x # duplicates xs else duplicates xs)"

definition declare_all :: "model \<Rightarrow> cause list" where
  "declare_all mo = map DuplicateDeclaration (duplicates (known mo))"

text \<open>Modelled from the spec: the equation compiler is not among the sources. Section 4.3:
  compilation fails with UndefinedSymbol if an expression references a name not declared
  by the model or reachable via a bound reference; otherwise it yields the residual
  expressions of the variables.\<close>

definition compile :: "model \<Rightarrow> cause + (string \<times> expr) list" where
  "compile mo =
     (case filter (\<lambda>x. x \<notin> set (known mo)) (referenced mo) of
        x # rest \<Rightarrow> Inl (UndefinedSymbol x)
      | [] \<Rightarrow> Inr (concat (map (\<lambda>d. case d of Var x init resid \<Rightarrow> [(x, resid)] | _ \<Rightarrow> [])
                               (decls mo))))"

text \<open>Modelled from the spec: \<open>initialize\<close> is not among the sources. Section 6: it builds the
  registries, resolves the references and compiles the equations, and fails with
  ModelCompositionError, wrapping the Duplicate, Unresolved and UndefinedSymbol causes, if
  any model is malformed; section 7: no partial system is returned. The resolver of
  section 4.2 works on the case data, which this development does not model: its causes
  for a model are the parameter \<open>resolve\<close>.\<close>

definition model_causes :: "(model \<Rightarrow> cause list) \<Rightarrow> model \<Rightarrow> cause list" where
  "model_causes resolve mo =
     declare_all mo @ resolve mo @ (case compile mo of Inl c \<Rightarrow> [c] | Inr eqs \<Rightarrow> [])"

definition initialize ::
  "(model \<Rightarrow> cause list) \<Rightarrow> model list \<Rightarrow>
     composition_error + (string \<times> (string \<times> expr) list) list" where
  "initialize resolve ms =
     (let causes = concat (map (model_causes resolve) ms) in
      if causes = []
      then Inr (concat (map (\<lambda>mo. case compile mo of Inl c \<Rightarrow> [] | Inr eqs \<Rightarrow> [(model_name mo, eqs)])
                            ms))
      else Inl (ModelCompositionError causes))"

text \<open>The declarations of \<open>TCSCBaseData\<close> (lines 20 to 50) and of \<open>TCSCBase\<close> (lines 61 to
  85), and the model \<open>TCSC\<close> that line 87 builds from the two. The index column \<open>syn\<close> of
  both references is declared nowhere.\<close>

definition TCSCBaseData :: "decl list" where
  "TCSCBaseData =
     [Param ''tcsc'' IndexReference, Param ''P'' Numeric, Param ''wref0'' Numeric,
      Param ''Xc'' Numeric, Param ''Xl'' Numeric, Param ''alpha'' Numeric]"

definition TCSCBase :: "decl list" where
  "TCSCBase =
     [Ext ''Sg'' ''SynGen'' ''Sn'' ''syn'',
      Ext ''Vn'' ''SynGen'' ''Vn'' ''syn'',
      Var ''wref'' (Ref ''wref0'') (Sub (Ref ''wref0'') (Ref ''wref''))]"

definition TCSC :: model where
  "TCSC = \<lparr>model_name = ''TCSC'', decls = TCSCBaseData @ TCSCBase\<rparr>"

section \<open>Facts about the vector operations\<close>

lemma and_then_Inr [simp]: "and_then (Inr x) f = f x"
  by (simp add: and_then_def)

lemma and_then_Inl [simp]: "and_then (Inl e) f = Inl e"
  by (simp add: and_then_def)

lemma and_then_eq_Inr: "and_then r f = Inr z \<longleftrightarrow> (\<exists>x. r = Inr x \<and> f x = Inr z)"
  by (cases r) simp_all

lemma and_then_assoc: "and_then (and_then r f) h = and_then r (\<lambda>x. and_then (f x) h)"
  by (cases r) simp_all

lemma mul_Inr: "length xs = length ys \<Longrightarrow> mul xs ys = Inr (map2 (*) xs ys)"
  by (simp add: mul_def)

lemma ediv_Inr:
  "length xs = length ys \<Longrightarrow> list_all (\<lambda>d. d \<noteq> 0) ys \<Longrightarrow> ediv xs ys = Inr (map2 (/) xs ys)"
  by (simp add: ediv_def)

lemma iadd_Inr: "length xs = length ys \<Longrightarrow> iadd xs ys = Inr (map2 (+) xs ys)"
  by (simp add: iadd_def)

lemma getitem_Inr:
  "list_all (\<lambda>i. i < length xs) ix \<Longrightarrow> getitem xs ix = Inr (map (\<lambda>i. xs ! i) ix)"
  by (simp add: getitem_def)

lemma altb_Inr:
  "length xs = length ys \<Longrightarrow> altb xs ys = Inr (map2 (\<lambda>x b. if x < b then 1 else 0) xs ys)"
  by (simp add: altb_def)

lemma agtb_Inr:
  "length xs = length ys \<Longrightarrow> agtb xs ys = Inr (map2 (\<lambda>x b. if x > b then 1 else 0) xs ys)"
  by (simp add: agtb_def)

lemma aorb_Inr:
  "length xs = length ys \<Longrightarrow>
   aorb xs ys = Inr (map2 (\<lambda>x b. if x \<noteq> 0 \<or> b \<noteq> 0 then 1 else 0) xs ys)"
  by (simp add: aorb_def)

lemma list_all_sq: "list_all (\<lambda>d. d \<noteq> 0) (sq xs) = list_all (\<lambda>d. d \<noteq> 0) xs"
  by (induction xs) (simp_all add: sq_def)

lemma length_sq: "length (sq xs) = length xs"
  by (simp add: sq_def)

lemma length_twice: "length (twice xs) = length xs"
  by (simp add: twice_def)

lemmas vec_Inr = getitem_Inr altb_Inr agtb_Inr aorb_Inr mul_Inr ediv_Inr iadd_Inr
  list_all_sq length_sq length_twice

section \<open>The switching branch of \<open>gcall\<close>\<close>

text \<open>On well-formed inputs the branch returns, and entry \<open>i\<close> of each vector is the
  scalar expression of the source at instance \<open>i\<close>.\<close>

lemma gcall_switch_nth:
  assumes ok: "pq_ok self dae" and lim: "limits_ok self"
  shows "\<exists>bl ab k nm. gcall_switch self dae = Inr (self\<lparr>below := bl, above := ab\<rparr>, k, nm) \<and>
           length bl = n self \<and> length ab = n self \<and> length k = n self \<and> length nm = n self \<and>
           (\<forall>i<n self.
              bl ! i = (if y dae ! (v self ! i) < vmin self ! i then 1 else 0) \<and>
              ab ! i = (if y dae ! (v self ! i) > vmax self ! i then 1 else 0) \<and>
              nm ! i = (if bl ! i \<noteq> 0 \<or> ab ! i \<noteq> 0 then 0 else 1) \<and>
              k ! i = bl ! i * ((y dae ! (v self ! i))\<^sup>2 / (vmin self ! i)\<^sup>2) +
                      ab ! i * ((y dae ! (v self ! i))\<^sup>2 / (vmax self ! i)\<^sup>2) + nm ! i)"
proof -
  let ?yv = "map (\<lambda>i. y dae ! i) (v self)"
  let ?bl = "map2 (\<lambda>x b. if x < b then 1 else 0 :: real) ?yv (vmin self)"
  let ?ab = "map2 (\<lambda>x b. if x > b then 1 else 0 :: real) ?yv (vmax self)"
  let ?nm = "nota (map2 (\<lambda>x b. if x \<noteq> 0 \<or> b \<noteq> 0 then 1 else 0) ?bl ?ab)"
  let ?k = "map2 (+) (map2 (+) (map2 (+) (zeros (n self))
              (map2 (*) ?bl (map2 (/) (sq ?yv) (sq (vmin self)))))
              (map2 (*) ?ab (map2 (/) (sq ?yv) (sq (vmax self)))))
              (map2 (*) ?nm (ones (n self)))"
  have eq: "gcall_switch self dae = Inr (self\<lparr>below := ?bl, above := ?ab\<rparr>, ?k, ?nm)"
    using ok lim unfolding gcall_switch_def pq_ok_def limits_ok_def
    by (simp add: Let_def vec_Inr zeros_def ones_def nota_def)
  have len: "length ?bl = n self" "length ?ab = n self" "length ?k = n self" "length ?nm = n self"
    using ok unfolding pq_ok_def by (simp_all add: zeros_def ones_def nota_def sq_def)
  have nth: "\<forall>i<n self.
              ?bl ! i = (if y dae ! (v self ! i) < vmin self ! i then 1 else 0) \<and>
              ?ab ! i = (if y dae ! (v self ! i) > vmax self ! i then 1 else 0) \<and>
              ?nm ! i = (if ?bl ! i \<noteq> 0 \<or> ?ab ! i \<noteq> 0 then 0 else 1) \<and>
              ?k ! i = ?bl ! i * ((y dae ! (v self ! i))\<^sup>2 / (vmin self ! i)\<^sup>2) +
                      ?ab ! i * ((y dae ! (v self ! i))\<^sup>2 / (vmax self ! i)\<^sup>2) + ?nm ! i"
    using ok unfolding pq_ok_def by (simp add: zeros_def ones_def nota_def sq_def)
  from eq len nth show ?thesis by blast
qed


text \<open>The scenario is well formed at every voltage.\<close>

lemma one_load_ok: "pq_ok one_load (one_bus volt)" "limits_ok one_load" "0 < n one_load"
  by (simp_all add: pq_ok_def limits_ok_def one_load_def one_bus_def)

section \<open>The accumulation into the residual\<close>

text \<open>The loop of lines 99 to 101 in closed form: it returns exactly when every address is
  in range, and then entry \<open>j\<close> has grown by what the instances contribute at \<open>j\<close>.\<close>

lemma contrib_Nil: "contrib [] j = 0"
  by (simp add: contrib_def)

lemma contrib_Cons:
  "contrib ((ai, vi, pv, qv) # rest) j =
     (if ai = j then pv else 0) + (if vi = j then qv else 0) + contrib rest j"
  by (simp add: contrib_def)

lemma contrib_append: "contrib (xs @ ys) j = contrib xs j + contrib ys j"
  by (simp add: contrib_def)

lemma in_range_Cons:
  "in_range len ((ai, vi, pv, qv) # rest) \<longleftrightarrow> ai < len \<and> vi < len \<and> in_range len rest"
  by (simp add: in_range_def)

lemma g_loop_closed:
  "g_loop gs insts =
     (if in_range (length gs) insts
      then Inr (map (\<lambda>j. gs ! j + contrib insts j) [0..<length gs]) else Inl OutOfRange)"
proof (induction insts arbitrary: gs)
  case Nil
  show ?case by (simp add: in_range_def contrib_Nil map_nth)
next
  case (Cons x rest)
  obtain ai vi pv qv where x: "x = (ai, vi, pv, qv)" by (cases x) auto
  show ?case
  proof (cases "ai < length gs \<and> vi < length gs")
    case False
    then show ?thesis by (auto simp: x g_add_def in_range_Cons)
  next
    case True
    let ?h = "gs[ai := gs ! ai + pv]"
    let ?h2 = "?h[vi := ?h ! vi + qv]"
    have step: "g_loop gs (x # rest) = g_loop ?h2 rest"
      using True by (simp add: x g_add_def)
    have len: "length ?h2 = length gs" by simp
    have nth: "\<And>j. j < length gs \<Longrightarrow>
                 ?h2 ! j = gs ! j + (if ai = j then pv else 0) + (if vi = j then qv else 0)"
      using True by (auto simp: nth_list_update)
    show ?thesis
      unfolding step Cons.IH [of ?h2] len
      using True nth by (auto simp: x in_range_Cons contrib_Cons)
  qed
qed


lemma contrib_zip:
  assumes "length as = length vs" "length vs = length ps" "length ps = length qs"
  shows "contrib (zip as (zip vs (zip ps qs))) j =
           sum_list (map snd (filter (\<lambda>(r, x). r = j) (zip as ps))) +
           sum_list (map snd (filter (\<lambda>(r, x). r = j) (zip vs qs)))"
  using assms by (induction as vs ps qs rule: list_induct4) (simp_all add: contrib_Nil contrib_Cons)

lemma in_range_zip:
  assumes "length as = length vs" "length vs = length ps" "length ps = length qs"
  shows "in_range len (zip as (zip vs (zip ps qs))) \<longleftrightarrow>
           list_all (\<lambda>i. i < len) as \<and> list_all (\<lambda>i. i < len) vs"
  using assms by (induction as vs ps qs rule: list_induct4) (auto simp: in_range_def)

text \<open>Both paths of lines 98 to 113 in closed form.\<close>

lemma g_dense_closed:
  assumes "pq_ok self dae" "length (p0 self) = n self" "length (q0 self) = n self"
  shows "g_dense self dae =
           Inr (dae\<lparr>g := map (\<lambda>j. g dae ! j +
                   contrib (zip (a self) (zip (v self) (zip (p0 self) (q0 self)))) j)
                   [0..<length (g dae)]\<rparr>)"
  using assms unfolding g_dense_def pq_ok_def
  by (simp add: g_loop_closed in_range_zip)

lemma g_sparse_closed:
  assumes "pq_ok self dae" "length (p0 self) = n self" "length (q0 self) = n self"
  shows "g_sparse self dae =
           Inr (dae\<lparr>g := map (\<lambda>j. g dae ! j +
                   contrib (zip (a self) (zip (v self) (zip (p0 self) (q0 self)))) j)
                   [0..<length (g dae)]\<rparr>)"
proof -
  let ?pc = "map (\<lambda>i. sum_list (map snd (filter (\<lambda>(r, x). r = i) (zip (a self) (p0 self)))))
               [0..<length (g dae)]"
  let ?qc = "map (\<lambda>i. sum_list (map snd (filter (\<lambda>(r, x). r = i) (zip (v self) (q0 self)))))
               [0..<length (g dae)]"
  have pc: "coo_toarray (p0 self) (a self) (n self) (m dae) = Inr ?pc"
    and qc: "coo_toarray (q0 self) (v self) (n self) (m dae) = Inr ?qc"
    using assms unfolding pq_ok_def coo_toarray_def by simp_all
  have eq: "map2 (+) (map2 (+) (g dae) ?pc) ?qc =
            map (\<lambda>j. g dae ! j +
                   contrib (zip (a self) (zip (v self) (zip (p0 self) (q0 self)))) j)
                [0..<length (g dae)]"
    using assms unfolding pq_ok_def
    by (intro nth_equalityI) (simp_all add: contrib_zip)
  show ?thesis
    unfolding g_sparse_def pc qc by (simp add: iadd_def eq)
qed

section \<open>The scaling step and the frame of \<open>gcall_k\<close>\<close>

lemma gcall_scale_closed:
  assumes "length (u self) = n self" "length (p self) = n self" "length (q self) = n self"
    and "length k = n self"
  shows "gcall_scale self k =
           Inr (self\<lparr>p0 := map2 (*) (map2 (*) (u self) k) (p self),
                       q0 := map2 (*) (map2 (*) (u self) k) (q self)\<rparr>)"
  using assms unfolding gcall_scale_def by (simp add: mul_Inr)

lemma gcall_switch_limits:
  assumes "pq_ok self dae" "gcall_switch self dae = Inr r"
  shows "limits_ok self"
  using assms unfolding gcall_switch_def pq_ok_def limits_ok_def
  by (auto simp: Let_def and_then_eq_Inr ediv_def list_all_sq split: if_splits)


lemma gcall_k_frame:
  assumes ok: "pq_ok self dae" and eq: "gcall_k cfg self dae = Inr (s, k)"
  shows "length k = n self \<and> n s = n self \<and> a s = a self \<and> v s = v self \<and> u s = u self \<and>
         p s = p self \<and> q s = q self \<and> vmin s = vmin self \<and> vmax s = vmax self \<and>
         v0 s = v0 self"
proof (cases "forcez cfg \<or> forcepq cfg")
  case True
  with ok eq show ?thesis
    unfolding gcall_k_def pq_ok_def
    by (auto simp: Let_def ones_def and_then_eq_Inr ediv_def getitem_def length_sq
             split: if_splits)
next
  case False
  with eq obtain nm where sw: "gcall_switch self dae = Inr (s, k, nm)"
    unfolding gcall_k_def by (auto simp: Let_def and_then_eq_Inr)
  from gcall_switch_nth [OF ok gcall_switch_limits [OF ok sw]] sw
  show ?thesis by auto
qed

lemma pq_ok_frame:
  assumes "pq_ok self dae"
    and "n s = n self" "a s = a self" "v s = v self" "u s = u self" "p s = p self" "q s = q self"
    and "vmin s = vmin self" "vmax s = vmax self"
  shows "pq_ok s dae"
  using assms unfolding pq_ok_def by simp


section \<open>The two accumulation paths\<close>

text \<open>
  Claim C3. On well-formed inputs the loop over the instances (taken when \<open>n <= 400\<close>) and
  the coordinate-list path (taken when \<open>n > 400\<close>) return the same residual, and both
  return: \<open>g_dense\<close> and \<open>g_sparse\<close> agree on every model whose scaled powers have one
  entry per instance, and \<open>gcall\<close> is the same function whether its last step is forced
  onto the dense or onto the sparse path, for every instance count and so on either side
  of the threshold and at it. Over the reals the two sums are equal, not only close.
\<close>

theorem dense_sparse_agree:
  assumes ok: "pq_ok self dae"
  shows "(length (p0 self) = n self \<and> length (q0 self) = n self \<longrightarrow>
            g_dense self dae = g_sparse self dae \<and> (\<exists>d. g_dense self dae = Inr d)) \<and>
         gcall cfg self dae =
           and_then (gcall_k cfg self dae) (\<lambda>(s, k).
           and_then (gcall_scale s k) (\<lambda>s.
           and_then (g_dense s dae) (\<lambda>d.
           Inr (s, d)))) \<and>
         gcall cfg self dae =
           and_then (gcall_k cfg self dae) (\<lambda>(s, k).
           and_then (gcall_scale s k) (\<lambda>s.
           and_then (g_sparse s dae) (\<lambda>d.
           Inr (s, d))))"
proof -
  have paths: "g_dense s dae = g_sparse s dae \<and> (\<exists>d. g_dense s dae = Inr d)"
    if "pq_ok s dae" "length (p0 s) = n s" "length (q0 s) = n s" for s
    using g_dense_closed [OF that] g_sparse_closed [OF that] by simp
  have after: "(if n s' \<le> 400 then g_dense s' dae else g_sparse s' dae) = g_dense s' dae \<and>
               g_dense s' dae = g_sparse s' dae"
    if k: "gcall_k cfg self dae = Inr (s, k)" and sc: "gcall_scale s k = Inr s'" for s k s'
  proof -
    from gcall_k_frame [OF ok k] have fr: "length k = n self" "n s = n self" "a s = a self"
      "v s = v self" "u s = u self" "p s = p self" "q s = q self" "vmin s = vmin self"
      "vmax s = vmax self" by simp_all
    have oks: "pq_ok s dae" by (rule pq_ok_frame [OF ok fr(2-9)])
    then have len: "length (u s) = n s" "length (p s) = n s" "length (q s) = n s" "length k = n s"
      using fr by (simp_all add: pq_ok_def)
    from sc gcall_scale_closed [OF len]
    have s': "s' = s\<lparr>p0 := map2 (*) (map2 (*) (u s) k) (p s),
                       q0 := map2 (*) (map2 (*) (u s) k) (q s)\<rparr>" by simp
    have "pq_ok s' dae" "length (p0 s') = n s'" "length (q0 s') = n s'"
      using oks len unfolding s' pq_ok_def by simp_all
    from paths [OF this] show ?thesis by simp
  qed
  have both: "gcall cfg self dae =
           and_then (gcall_k cfg self dae) (\<lambda>(s, k).
           and_then (gcall_scale s k) (\<lambda>s.
           and_then (g_dense s dae) (\<lambda>d.
           Inr (s, d)))) \<and>
         gcall cfg self dae =
           and_then (gcall_k cfg self dae) (\<lambda>(s, k).
           and_then (gcall_scale s k) (\<lambda>s.
           and_then (g_sparse s dae) (\<lambda>d.
           Inr (s, d))))"
  proof (cases "gcall_k cfg self dae")
    case (Inl e)
    then show ?thesis by (simp add: gcall_def)
  next
    case (Inr r)
    obtain s k where r: "r = (s, k)" by (cases r) auto
    show ?thesis
    proof (cases "gcall_scale s k")
      case (Inl e)
      then show ?thesis by (simp add: gcall_def Inr r)
    next
      case inner: (Inr s')
      from after [OF Inr [unfolded r] inner] show ?thesis
        by (simp add: gcall_def Inr r inner)
    qed
  qed
  from paths [OF ok] have "length (p0 self) = n self \<and> length (q0 self) = n self \<longrightarrow>
            g_dense self dae = g_sparse self dae \<and> (\<exists>d. g_dense self dae = Inr d)"
    by blast
  with both show ?thesis by blast
qed


text \<open>The many-load scenario with stored powers is well formed for every count.\<close>

lemma many_loads_ok2: "pq_ok ((many_loads k)\<lparr>p0 := replicate k 2, q0 := replicate k (1 / 2)\<rparr>) (one_bus volt)"
  by (simp add: pq_ok_def many_loads_def one_bus_def list_all_iff)

theorem dense_sparse_agree_witness:
  "pq_ok ((many_loads 401)\<lparr>p0 := replicate 401 2, q0 := replicate 401 (1 / 2)\<rparr>) (one_bus 1) \<and>
   length (p0 ((many_loads 401)\<lparr>p0 := replicate 401 2, q0 := replicate 401 (1 / 2)\<rparr>)) =
     n ((many_loads 401)\<lparr>p0 := replicate 401 2, q0 := replicate 401 (1 / 2)\<rparr>) \<and>
   length (q0 ((many_loads 401)\<lparr>p0 := replicate 401 2, q0 := replicate 401 (1 / 2)\<rparr>)) =
     n ((many_loads 401)\<lparr>p0 := replicate 401 2, q0 := replicate 401 (1 / 2)\<rparr>) \<and>
   400 < n ((many_loads 401)\<lparr>p0 := replicate 401 2, q0 := replicate 401 (1 / 2)\<rparr>) \<and>
   g_dense ((many_loads 401)\<lparr>p0 := replicate 401 2, q0 := replicate 401 (1 / 2)\<rparr>) (one_bus 1) =
   g_sparse ((many_loads 401)\<lparr>p0 := replicate 401 2, q0 := replicate 401 (1 / 2)\<rparr>) (one_bus 1) \<and>
   (\<exists>d. g_dense ((many_loads 401)\<lparr>p0 := replicate 401 2, q0 := replicate 401 (1 / 2)\<rparr>) (one_bus 1) =
      Inr d)"
proof -
  let ?s = "(many_loads 401)\<lparr>p0 := replicate 401 2, q0 := replicate 401 (1 / 2)\<rparr>"
  have h: "pq_ok ?s (one_bus 1)" by (rule many_loads_ok2)
  have l: "length (p0 ?s) = n ?s \<and> length (q0 ?s) = n ?s"
    by (simp add: many_loads_def)
  have big: "400 < n ?s"
    by (simp add: many_loads_def)
  from dense_sparse_agree [OF h, of default_config] l
  have "g_dense ?s (one_bus 1) = g_sparse ?s (one_bus 1) \<and> (\<exists>d. g_dense ?s (one_bus 1) = Inr d)"
    by blast
  with h l big show ?thesis by blast
qed

section \<open>Accumulation does not depend on the order\<close>

text \<open>Running the loop over two lists one after the other is running it over their
  concatenation, and the result depends on the instances only as a multiset.\<close>

lemma g_loop_append: "g_loop gs (xs @ ys) = and_then (g_loop gs xs) (\<lambda>h. g_loop h ys)"
proof (induction xs arbitrary: gs)
  case Nil
  show ?case by simp
next
  case (Cons x xs)
  obtain ai vi pv qv where x: "x = (ai, vi, pv, qv)" by (cases x) auto
  show ?case
    by (cases "g_add gs ai pv"; cases "g_add gs vi qv") (simp_all add: x Cons.IH and_then_assoc)
qed


lemma g_loop_mset:
  assumes "mset xs = mset ys"
  shows "g_loop gs xs = g_loop gs ys"
proof -
  from assms have "set xs = set ys" by (rule mset_eq_setD)
  then have r: "in_range (length gs) xs = in_range (length gs) ys"
    by (simp add: in_range_def list_all_iff)
  have "sum_mset (image_mset f (mset xs)) = sum_mset (image_mset f (mset ys))" for f :: "_ \<Rightarrow> real"
    using assms by simp
  then have c: "contrib xs j = contrib ys j" for j
    unfolding contrib_def by (simp only: mset_map [symmetric] sum_mset_sum_list)
  show ?thesis by (simp add: g_loop_closed r c)
qed


text \<open>
  Claim C4. The loop \<open>dae.g[a] += p; dae.g[v] += q\<close> adds and never overwrites, and the
  order does not matter: any reordering of the instances gives the same residual, two
  models evaluated one after the other give the same residual in either order, and two
  instances that both target offset \<open>i\<close> with +5 and +3 (their other contributions going
  to other offsets) leave there the prior value plus 8, in either order and whether they
  belong to one pass or to two.
\<close>

theorem accumulation_additive:
  assumes "i < length gs" and "ja < length gs" and "jb < length gs" and "ja \<noteq> i" and "jb \<noteq> i"
  shows "(mset xs = mset ys \<longrightarrow> g_loop gs xs = g_loop gs ys) \<and>
         and_then (g_loop gs xs) (\<lambda>h. g_loop h ys) =
           and_then (g_loop gs ys) (\<lambda>h. g_loop h xs) \<and>
         (\<exists>h. g_loop gs [(i, ja, 5, qa), (i, jb, 3, qb)] = Inr h \<and> h ! i = gs ! i + 8) \<and>
         (\<exists>h. g_loop gs [(i, jb, 3, qb), (i, ja, 5, qa)] = Inr h \<and> h ! i = gs ! i + 8) \<and>
         (\<exists>h. and_then (g_loop gs [(i, ja, 5, qa)]) (\<lambda>h. g_loop h [(i, jb, 3, qb)]) = Inr h \<and>
              h ! i = gs ! i + 8) \<and>
         (\<exists>h. and_then (g_loop gs [(i, jb, 3, qb)]) (\<lambda>h. g_loop h [(i, ja, 5, qa)]) = Inr h \<and>
              h ! i = gs ! i + 8)"
proof -
  have perm: "mset xs = mset ys \<longrightarrow> g_loop gs xs = g_loop gs ys"
    using g_loop_mset by blast
  have "g_loop gs (xs @ ys) = g_loop gs (ys @ xs)"
    by (rule g_loop_mset) simp
  then have comm: "and_then (g_loop gs xs) (\<lambda>h. g_loop h ys) =
           and_then (g_loop gs ys) (\<lambda>h. g_loop h xs)"
    by (simp only: g_loop_append)
  have one: "\<exists>h. g_loop gs [(i, ja, 5, qa), (i, jb, 3, qb)] = Inr h \<and> h ! i = gs ! i + 8"
    using assms by (simp add: g_loop_closed in_range_Cons in_range_def contrib_Cons contrib_Nil)
  have two: "\<exists>h. g_loop gs [(i, jb, 3, qb), (i, ja, 5, qa)] = Inr h \<and> h ! i = gs ! i + 8"
    using assms by (simp add: g_loop_closed in_range_Cons in_range_def contrib_Cons contrib_Nil)
  have three: "\<exists>h. and_then (g_loop gs [(i, ja, 5, qa)]) (\<lambda>h. g_loop h [(i, jb, 3, qb)]) = Inr h \<and>
              h ! i = gs ! i + 8"
    using one g_loop_append [of gs "[(i, ja, 5, qa)]" "[(i, jb, 3, qb)]"] by simp
  have four: "\<exists>h. and_then (g_loop gs [(i, jb, 3, qb)]) (\<lambda>h. g_loop h [(i, ja, 5, qa)]) = Inr h \<and>
              h ! i = gs ! i + 8"
    using two g_loop_append [of gs "[(i, jb, 3, qb)]" "[(i, ja, 5, qa)]"] by simp
  from perm comm one two three four show ?thesis by blast
qed


theorem accumulation_additive_witness:
  "(2::nat) < length [10, 20, 30 :: real] \<and> (0::nat) < length [10, 20, 30 :: real] \<and>
   (1::nat) < length [10, 20, 30 :: real] \<and> (0::nat) \<noteq> 2 \<and> (1::nat) \<noteq> 2 \<and>
   g_loop [10, 20, 30] [(2, 0, 5, 1), (2, 1, 3, 1)] = Inr [11, 21, 38] \<and>
   g_loop [10, 20, 30] [(2, 1, 3, 1), (2, 0, 5, 1)] = Inr [11, 21, 38] \<and>
   (\<exists>h. g_loop [10, 20, 30] [(2, 0, 5, 1), (2, 1, 3, 1)] = Inr h \<and> h ! 2 = [10, 20, 30] ! 2 + 8)"
proof -
  have h: "(2::nat) < length [10, 20, 30 :: real]" "(0::nat) < length [10, 20, 30 :: real]"
    "(1::nat) < length [10, 20, 30 :: real]" "(0::nat) \<noteq> 2" "(1::nat) \<noteq> 2"
    by simp_all
  have e1: "g_loop [10, 20, 30] [(2, 0, 5, 1), (2, 1, 3, 1)] = Inr [11, 21, 38]"
    by (simp add: g_add_def)
  have e2: "g_loop [10, 20, 30] [(2, 1, 3, 1), (2, 0, 5, 1)] = Inr [11, 21, 38]"
    by (simp add: g_add_def)
  have t: "\<exists>h. g_loop [10, 20, 30] [(2, 0, 5, 1), (2, 1, 3, 1)] = Inr h \<and>
             h ! 2 = [10, 20, 30] ! 2 + 8"
    using accumulation_additive [OF h, where xs = "[]" and ys = "[]" and qa = 1 and qb = 1]
    by (elim conjE)
  show ?thesis by (intro conjI h e1 e2 t)
qed

section \<open>\<open>gcall\<close> in closed form\<close>

text \<open>Whatever branch produced the blend factor \<open>k\<close>, \<open>gcall\<close> stores \<open>u * k * p\<close> and
  \<open>u * k * q\<close> and adds them into the residual at the addresses of the instances.\<close>

lemma gcall_closed:
  assumes ok: "pq_ok self dae" and k: "gcall_k cfg self dae = Inr (s, k)"
  shows "gcall cfg self dae =
           Inr (s\<lparr>p0 := map2 (*) (map2 (*) (u self) k) (p self),
                   q0 := map2 (*) (map2 (*) (u self) k) (q self)\<rparr>,
                 dae\<lparr>g := map (\<lambda>j. g dae ! j +
                    contrib (zip (a self) (zip (v self)
                      (zip (map2 (*) (map2 (*) (u self) k) (p self))
                           (map2 (*) (map2 (*) (u self) k) (q self))))) j)
                    [0..<length (g dae)]\<rparr>)"
proof -
  from gcall_k_frame [OF ok k] have fr: "length k = n self" "n s = n self" "a s = a self"
    "v s = v self" "u s = u self" "p s = p self" "q s = q self" "vmin s = vmin self"
    "vmax s = vmax self" by simp_all
  have oks: "pq_ok s dae" by (rule pq_ok_frame [OF ok fr(2-9)])
  then have len: "length (u s) = n s" "length (p s) = n s" "length (q s) = n s" "length k = n s"
    using fr by (simp_all add: pq_ok_def)
  let ?s' = "s\<lparr>p0 := map2 (*) (map2 (*) (u s) k) (p s),
                  q0 := map2 (*) (map2 (*) (u s) k) (q s)\<rparr>"
  have sc: "gcall_scale s k = Inr ?s'" by (rule gcall_scale_closed [OF len])
  have ok': "pq_ok ?s' dae" "length (p0 ?s') = n ?s'" "length (q0 ?s') = n ?s'"
    using oks len unfolding pq_ok_def by simp_all
  have d: "g_dense ?s' dae = g_sparse ?s' dae"
    using g_dense_closed [OF ok'] g_sparse_closed [OF ok'] by simp
  have "gcall cfg self dae = and_then (g_dense ?s' dae) (\<lambda>d. Inr (?s', d))"
    unfolding gcall_def k using sc d by simp
  then show ?thesis
    unfolding g_dense_closed [OF ok'] by (simp add: fr)
qed


text \<open>The definitions to unfold when a call is evaluated on given numbers.\<close>

lemmas run_defs = gcall_def gcall_k_def gcall_switch_def gcall_scale_def g_dense_def g_sparse_def
  coo_toarray_def gycall_def add_jac_def getitem_def altb_def agtb_def aorb_def nota_def mul_def
  ediv_def iadd_def sq_def twice_def zeros_def ones_def g_add_def truthy_def Let_def

lemma gcall_k_default:
  "gcall_k default_config self dae =
     and_then (gcall_switch self dae) (\<lambda>(self, k, normal). Inr (self, k))"
  by (simp add: gcall_k_def default_config_def)

lemma switch_scale:
  assumes ok: "pq_ok self dae" and lim: "limits_ok self"
  shows "\<exists>s k nm s'. gcall_switch self dae = Inr (s, k, nm) \<and> gcall_scale s k = Inr s' \<and>
           gcall default_config self dae =
             Inr (s', dae\<lparr>g := map (\<lambda>j. g dae ! j +
                    contrib (zip (a self) (zip (v self) (zip (p0 s') (q0 s')))) j)
                    [0..<length (g dae)]\<rparr>) \<and>
           length (below s) = n self \<and> length (above s) = n self \<and>
           (\<forall>i<n self.
              below s ! i = (if y dae ! (v self ! i) < vmin self ! i then 1 else 0) \<and>
              above s ! i = (if y dae ! (v self ! i) > vmax self ! i then 1 else 0) \<and>
              nm ! i = (if below s ! i \<noteq> 0 \<or> above s ! i \<noteq> 0 then 0 else 1) \<and>
              k ! i = below s ! i * ((y dae ! (v self ! i))\<^sup>2 / (vmin self ! i)\<^sup>2) +
                      above s ! i * ((y dae ! (v self ! i))\<^sup>2 / (vmax self ! i)\<^sup>2) + nm ! i \<and>
              p0 s' ! i = u self ! i * k ! i * p self ! i \<and>
              q0 s' ! i = u self ! i * k ! i * q self ! i)"
proof -
  from gcall_switch_nth [OF ok lim] obtain bl ab k nm where
    eq: "gcall_switch self dae = Inr (self\<lparr>below := bl, above := ab\<rparr>, k, nm)" and
    len: "length bl = n self" "length ab = n self" "length k = n self" and
    nth: "\<forall>i<n self.
              bl ! i = (if y dae ! (v self ! i) < vmin self ! i then 1 else 0) \<and>
              ab ! i = (if y dae ! (v self ! i) > vmax self ! i then 1 else 0) \<and>
              nm ! i = (if bl ! i \<noteq> 0 \<or> ab ! i \<noteq> 0 then 0 else 1) \<and>
              k ! i = bl ! i * ((y dae ! (v self ! i))\<^sup>2 / (vmin self ! i)\<^sup>2) +
                      ab ! i * ((y dae ! (v self ! i))\<^sup>2 / (vmax self ! i)\<^sup>2) + nm ! i"
    by blast
  let ?s = "self\<lparr>below := bl, above := ab\<rparr>"
  let ?s' = "?s\<lparr>p0 := map2 (*) (map2 (*) (u self) k) (p self),
                  q0 := map2 (*) (map2 (*) (u self) k) (q self)\<rparr>"
  have lens: "length (u self) = n self" "length (p self) = n self" "length (q self) = n self"
    using ok by (simp_all add: pq_ok_def)
  have sc: "gcall_scale ?s k = Inr ?s'"
    using gcall_scale_closed [of ?s k] lens len by simp
  have gk: "gcall_k default_config self dae = Inr (?s, k)"
    by (simp add: gcall_k_default eq)
  have gc: "gcall default_config self dae =
             Inr (?s', dae\<lparr>g := map (\<lambda>j. g dae ! j +
                    contrib (zip (a self) (zip (v self) (zip (p0 ?s') (q0 ?s')))) j)
                    [0..<length (g dae)]\<rparr>)"
    using gcall_closed [OF ok gk] by simp
  have pq: "\<forall>i<n self. p0 ?s' ! i = u self ! i * k ! i * p self ! i \<and>
                         q0 ?s' ! i = u self ! i * k ! i * q self ! i"
    using lens len by simp
  show ?thesis
    apply (rule exI [of _ ?s], rule exI [of _ k], rule exI [of _ nm], rule exI [of _ ?s'])
    using eq sc gc len nth pq by simp
qed


section \<open>The load scenario\<close>

text \<open>
  Claim C5. An enabled instance with thresholds 0.9 and 1.1, through lines 83 to 96 of
  \<open>gcall\<close> (the branch in which the indicators are evaluated, which is \<open>gcall\<close> in the
  default configuration): at voltage 1.0 the within indicator is 1 and the contributions
  \<open>p0\<close> and \<open>q0\<close> that the accumulation adds into the residual are \<open>p\<close> and \<open>q\<close>; at
  voltage 0.8 the below indicator is 1 and they are \<open>p\<close> and \<open>q\<close> times (0.8/0.9)^2. The
  residual expressions of \<open>PQNew\<close> give the same values.
\<close>

theorem load_scenario:
  assumes ok: "pq_ok self dae" and ok_low: "pq_ok self low" and lim: "limits_ok self"
    and i: "i < n self" and en: "u self ! i = 1"
    and lo: "vmin self ! i = 9 / 10" and up: "vmax self ! i = 11 / 10"
    and volt: "y dae ! (v self ! i) = 1" and volt_low: "y low ! (v self ! i) = 8 / 10"
  shows "(\<exists>s k nm s' d. gcall_switch self dae = Inr (s, k, nm) \<and> gcall_scale s k = Inr s' \<and>
            gcall default_config self dae = Inr (s', d) \<and>
            below s ! i = 0 \<and> nm ! i = 1 \<and> above s ! i = 0 \<and>
            p0 s' ! i = p self ! i \<and> q0 s' ! i = q self ! i \<and>
            g d = map (\<lambda>j. g dae ! j +
                    contrib (zip (a self) (zip (v self) (zip (p0 s') (q0 s')))) j)
                    [0..<length (g dae)]) \<and>
         (\<exists>s k nm s' d. gcall_switch self low = Inr (s, k, nm) \<and> gcall_scale s k = Inr s' \<and>
            gcall default_config self low = Inr (s', d) \<and>
            below s ! i = 1 \<and> nm ! i = 0 \<and> above s ! i = 0 \<and>
            p0 s' ! i = p self ! i * ((8 / 10) / (9 / 10))\<^sup>2 \<and>
            q0 s' ! i = q self ! i * ((8 / 10) / (9 / 10))\<^sup>2 \<and>
            g d = map (\<lambda>j. g low ! j +
                    contrib (zip (a self) (zip (v self) (zip (p0 s') (q0 s')))) j)
                    [0..<length (g low)]) \<and>
         zi (Comparer 1 (9 / 10) (11 / 10)) = 1 \<and>
         e_symbolic 1 pw 1 (9 / 10) (11 / 10) = Some pw \<and>
         zl (Comparer (8 / 10) (9 / 10) (11 / 10)) = 1 \<and>
         e_symbolic 1 pw (8 / 10) (9 / 10) (11 / 10) = Some (pw * ((8 / 10) / (9 / 10))\<^sup>2)"
proof -
  from switch_scale [OF ok lim] obtain s k nm s' where
    run: "gcall_switch self dae = Inr (s, k, nm)" "gcall_scale s k = Inr s'"
      "gcall default_config self dae =
         Inr (s', dae\<lparr>g := map (\<lambda>j. g dae ! j +
                contrib (zip (a self) (zip (v self) (zip (p0 s') (q0 s')))) j)
                [0..<length (g dae)]\<rparr>)" and
    nth: "\<forall>i<n self.
              below s ! i = (if y dae ! (v self ! i) < vmin self ! i then 1 else 0) \<and>
              above s ! i = (if y dae ! (v self ! i) > vmax self ! i then 1 else 0) \<and>
              nm ! i = (if below s ! i \<noteq> 0 \<or> above s ! i \<noteq> 0 then 0 else 1) \<and>
              k ! i = below s ! i * ((y dae ! (v self ! i))\<^sup>2 / (vmin self ! i)\<^sup>2) +
                      above s ! i * ((y dae ! (v self ! i))\<^sup>2 / (vmax self ! i)\<^sup>2) + nm ! i \<and>
              p0 s' ! i = u self ! i * k ! i * p self ! i \<and>
              q0 s' ! i = u self ! i * k ! i * q self ! i"
    by blast
  from nth i en lo up volt have vals:
    "below s ! i = 0" "nm ! i = 1" "above s ! i = 0" "p0 s' ! i = p self ! i"
    "q0 s' ! i = q self ! i"
    by simp_all
  have normal: "\<exists>s k nm s' d. gcall_switch self dae = Inr (s, k, nm) \<and> gcall_scale s k = Inr s' \<and>
            gcall default_config self dae = Inr (s', d) \<and>
            below s ! i = 0 \<and> nm ! i = 1 \<and> above s ! i = 0 \<and>
            p0 s' ! i = p self ! i \<and> q0 s' ! i = q self ! i \<and>
            g d = map (\<lambda>j. g dae ! j +
                    contrib (zip (a self) (zip (v self) (zip (p0 s') (q0 s')))) j)
                    [0..<length (g dae)]"
    apply (rule exI [of _ s], rule exI [of _ k], rule exI [of _ nm], rule exI [of _ s'])
    using run vals by simp
  from switch_scale [OF ok_low lim] obtain t kl nl t' where
    run_low: "gcall_switch self low = Inr (t, kl, nl)" "gcall_scale t kl = Inr t'"
      "gcall default_config self low =
         Inr (t', low\<lparr>g := map (\<lambda>j. g low ! j +
                contrib (zip (a self) (zip (v self) (zip (p0 t') (q0 t')))) j)
                [0..<length (g low)]\<rparr>)" and
    nth_low: "\<forall>i<n self.
              below t ! i = (if y low ! (v self ! i) < vmin self ! i then 1 else 0) \<and>
              above t ! i = (if y low ! (v self ! i) > vmax self ! i then 1 else 0) \<and>
              nl ! i = (if below t ! i \<noteq> 0 \<or> above t ! i \<noteq> 0 then 0 else 1) \<and>
              kl ! i = below t ! i * ((y low ! (v self ! i))\<^sup>2 / (vmin self ! i)\<^sup>2) +
                      above t ! i * ((y low ! (v self ! i))\<^sup>2 / (vmax self ! i)\<^sup>2) + nl ! i \<and>
              p0 t' ! i = u self ! i * kl ! i * p self ! i \<and>
              q0 t' ! i = u self ! i * kl ! i * q self ! i"
    by blast
  from nth_low i have inst:
    "below t ! i = (if y low ! (v self ! i) < vmin self ! i then 1 else 0)"
    "above t ! i = (if y low ! (v self ! i) > vmax self ! i then 1 else 0)"
    "nl ! i = (if below t ! i \<noteq> 0 \<or> above t ! i \<noteq> 0 then 0 else 1)"
    "kl ! i = below t ! i * ((y low ! (v self ! i))\<^sup>2 / (vmin self ! i)\<^sup>2) +
              above t ! i * ((y low ! (v self ! i))\<^sup>2 / (vmax self ! i)\<^sup>2) + nl ! i"
    "p0 t' ! i = u self ! i * kl ! i * p self ! i"
    "q0 t' ! i = u self ! i * kl ! i * q self ! i"
    by blast+
  have ind_low: "below t ! i = 1" "nl ! i = 0" "above t ! i = 0"
    using inst(1-3) unfolding lo up volt_low by simp_all
  have "kl ! i = ((8 / 10) / (9 / 10))\<^sup>2"
    using inst(4) unfolding ind_low lo up volt_low by (simp add: power2_eq_square)
  then have pow_low: "p0 t' ! i = p self ! i * ((8 / 10) / (9 / 10))\<^sup>2"
    "q0 t' ! i = q self ! i * ((8 / 10) / (9 / 10))\<^sup>2"
    using inst(5,6) unfolding en by simp_all
  note vals_low = ind_low pow_low
  have lowv: "\<exists>s k nm s' d. gcall_switch self low = Inr (s, k, nm) \<and> gcall_scale s k = Inr s' \<and>
            gcall default_config self low = Inr (s', d) \<and>
            below s ! i = 1 \<and> nm ! i = 0 \<and> above s ! i = 0 \<and>
            p0 s' ! i = p self ! i * ((8 / 10) / (9 / 10))\<^sup>2 \<and>
            q0 s' ! i = q self ! i * ((8 / 10) / (9 / 10))\<^sup>2 \<and>
            g d = map (\<lambda>j. g low ! j +
                    contrib (zip (a self) (zip (v self) (zip (p0 s') (q0 s')))) j)
                    [0..<length (g low)]"
    apply (rule exI [of _ t], rule exI [of _ kl], rule exI [of _ nl], rule exI [of _ t'])
    using run_low vals_low by simp
  have new: "zi (Comparer 1 (9 / 10) (11 / 10)) = 1"
    "e_symbolic 1 pw 1 (9 / 10) (11 / 10) = Some pw"
    "zl (Comparer (8 / 10) (9 / 10) (11 / 10)) = 1"
    "e_symbolic 1 pw (8 / 10) (9 / 10) (11 / 10) = Some (pw * ((8 / 10) / (9 / 10))\<^sup>2)"
    by (simp_all add: e_symbolic_def Comparer_def power2_eq_square)
  from normal lowv new show ?thesis by blast
qed


theorem load_scenario_witness:
  "pq_ok one_load (one_bus 1) \<and> pq_ok one_load (one_bus (8 / 10)) \<and> limits_ok one_load \<and>
   0 < n one_load \<and> u one_load ! 0 = 1 \<and>
   vmin one_load ! 0 = 9 / 10 \<and> vmax one_load ! 0 = 11 / 10 \<and>
   y (one_bus 1) ! (v one_load ! 0) = 1 \<and> y (one_bus (8 / 10)) ! (v one_load ! 0) = 8 / 10 \<and>
   (\<exists>s' d. gcall default_config one_load (one_bus 1) = Inr (s', d) \<and>
      p0 s' ! 0 = p one_load ! 0 \<and> q0 s' ! 0 = q one_load ! 0) \<and>
   (\<exists>s' d. gcall default_config one_load (one_bus (8 / 10)) = Inr (s', d) \<and>
      p0 s' ! 0 = p one_load ! 0 * ((8 / 10) / (9 / 10))\<^sup>2 \<and>
      q0 s' ! 0 = q one_load ! 0 * ((8 / 10) / (9 / 10))\<^sup>2) \<and>
   gcall default_config one_load (one_bus 1) =
     Inr (one_load\<lparr>p0 := [2], q0 := [1 / 2], below := [0], above := [0]\<rparr>,
           (one_bus 1)\<lparr>g := [2, 1 / 2]\<rparr>) \<and>
   gcall default_config one_load (one_bus (8 / 10)) =
     Inr (one_load\<lparr>p0 := [128 / 81], q0 := [32 / 81], below := [1], above := [0]\<rparr>,
           (one_bus (8 / 10))\<lparr>g := [128 / 81, 32 / 81]\<rparr>)"
proof -
  have h: "pq_ok one_load (one_bus 1)" "pq_ok one_load (one_bus (8 / 10))" "limits_ok one_load"
    "0 < n one_load" "u one_load ! 0 = 1" "vmin one_load ! 0 = 9 / 10"
    "vmax one_load ! 0 = 11 / 10" "y (one_bus 1) ! (v one_load ! 0) = 1"
    "y (one_bus (8 / 10)) ! (v one_load ! 0) = 8 / 10"
    by (simp_all add: one_load_ok) (simp_all add: one_load_def one_bus_def)
  note t = load_scenario [OF h, where pw = 0]
  have t1: "\<exists>s' d. gcall default_config one_load (one_bus 1) = Inr (s', d) \<and>
      p0 s' ! 0 = p one_load ! 0 \<and> q0 s' ! 0 = q one_load ! 0"
    using t by blast
  have t2: "\<exists>s' d. gcall default_config one_load (one_bus (8 / 10)) = Inr (s', d) \<and>
      p0 s' ! 0 = p one_load ! 0 * ((8 / 10) / (9 / 10))\<^sup>2 \<and>
      q0 s' ! 0 = q one_load ! 0 * ((8 / 10) / (9 / 10))\<^sup>2"
    using t by blast
  have e1: "gcall default_config one_load (one_bus 1) =
     Inr (one_load\<lparr>p0 := [2], q0 := [1 / 2], below := [0], above := [0]\<rparr>,
           (one_bus 1)\<lparr>g := [2, 1 / 2]\<rparr>)"
    by (simp add: run_defs one_load_def one_bus_def default_config_def)
  have e2: "gcall default_config one_load (one_bus (8 / 10)) =
     Inr (one_load\<lparr>p0 := [128 / 81], q0 := [32 / 81], below := [1], above := [0]\<rparr>,
           (one_bus (8 / 10))\<lparr>g := [128 / 81, 32 / 81]\<rparr>)"
    by (simp add: run_defs one_load_def one_bus_def default_config_def power2_eq_square)
  show ?thesis by (intro conjI h t1 t2 e1 e2)
qed

section \<open>The Jacobian pass\<close>

text \<open>With neither flag set \<open>gycall\<close> returns and stamps, for each instance, the value of
  \<open>dg_dv\<close> for \<open>p\<close> at (\<open>a\<close>, \<open>v\<close>) and for \<open>q\<close> at (\<open>v\<close>, \<open>v\<close>).\<close>

lemma gycall_default:
  assumes ok: "pq_ok self dae" and lim: "limits_ok self"
    and bl: "length (below self) = n self" and ab: "length (above self) = n self"
    and cfg: "\<not> forcez cfg" "\<not> forcepq cfg"
  shows "\<exists>pk qk. gycall cfg self dae =
           Inr (dae\<lparr>Gy := Gy dae @ zip (a self) (zip (v self) pk) @
                                     zip (v self) (zip (v self) qk)\<rparr>) \<and>
           length pk = n self \<and> length qk = n self \<and>
           (\<forall>i<n self. pk ! i = dg_dv self dae (p self) i \<and> qk ! i = dg_dv self dae (q self) i)"
proof -
  let ?yv = "map (\<lambda>i. y dae ! i) (v self)"
  let ?k = "map2 (*) (u self)
              (map2 (+) (map2 (+) (zeros (n self))
                 (map2 (*) (below self) (map2 (/) (twice ?yv) (sq (vmin self)))))
                 (map2 (*) (above self) (map2 (/) (twice ?yv) (sq (vmax self)))))"
  let ?pk = "map2 (*) (p self) ?k"
  let ?qk = "map2 (*) (q self) ?k"
  have eq: "gycall cfg self dae =
           Inr (dae\<lparr>Gy := Gy dae @ zip (a self) (zip (v self) ?pk) @
                                     zip (v self) (zip (v self) ?qk)\<rparr>)"
    using ok lim bl ab cfg unfolding gycall_def pq_ok_def limits_ok_def
    by (simp add: Let_def vec_Inr zeros_def add_jac_def)
  have len: "length ?pk = n self" "length ?qk = n self"
    using ok bl ab unfolding pq_ok_def by (simp_all add: zeros_def twice_def sq_def)
  have nth: "\<forall>i<n self. ?pk ! i = dg_dv self dae (p self) i \<and> ?qk ! i = dg_dv self dae (q self) i"
    using ok bl ab unfolding pq_ok_def dg_dv_def
    by (simp add: zeros_def twice_def sq_def algebra_simps)
  from eq len nth show ?thesis by blast
qed


text \<open>\<open>dg_dv\<close> is the derivative of the residual of \<open>gcall\<close>'s switching branch when the
  indicators (\<open>below\<close>, \<open>above\<close> and the within indicator \<open>nm\<close>) are constants.\<close>

lemma blend_derivative:
  fixes b c d e w z x0 :: real
  shows "((\<lambda>x. w * (b * (x\<^sup>2 / c) + d * (x\<^sup>2 / e) + z) * r) has_real_derivative
           w * r * (b * (2 * x0) / c + d * (2 * x0) / e)) (at x0)"
proof -
  have "((\<lambda>x. w * (b * (x\<^sup>2 * inverse c) + d * (x\<^sup>2 * inverse e) + z) * r) has_real_derivative
           w * r * (b * (2 * x0) * inverse c + d * (2 * x0) * inverse e)) (at x0)"
    by (auto intro!: derivative_eq_intros simp: algebra_simps)
  then show ?thesis by (simp add: divide_inverse)
qed

lemma dg_dv_derivative:
  "((\<lambda>x. u self ! i * (below self ! i * (x\<^sup>2 / (vmin self ! i)\<^sup>2) +
                         above self ! i * (x\<^sup>2 / (vmax self ! i)\<^sup>2) + nm) * pw ! i)
      has_real_derivative dg_dv self dae pw i) (at (y dae ! (v self ! i)))"
  unfolding dg_dv_def by (rule blend_derivative)


text \<open>
  Claim C6, amended: with neither the forced-impedance nor the forced-PQ flag set, the
  values that \<open>gycall\<close> stamps for instance \<open>i\<close> at (row \<open>a\<close>, column \<open>v\<close>) and at (row
  \<open>v\<close>, column \<open>v\<close>) are \<open>u * p * (below * 2v / vmin^2 + above * 2v / vmax^2)\<close> and the
  same with \<open>q\<close>, where \<open>below\<close> and \<open>above\<close> are the indicators the last residual pass
  stored; each is the derivative with respect to the voltage of that instance's residual
  with the indicators held constant.
\<close>

theorem jacobian_stamp:
  assumes ok: "pq_ok self dae" and lim: "limits_ok self"
    and bl: "length (below self) = n self" and ab: "length (above self) = n self"
    and cfg: "\<not> forcez cfg" "\<not> forcepq cfg"
  shows "\<exists>pk qk. gycall cfg self dae =
           Inr (dae\<lparr>Gy := Gy dae @ zip (a self) (zip (v self) pk) @
                                     zip (v self) (zip (v self) qk)\<rparr>) \<and>
           length pk = n self \<and> length qk = n self \<and>
           (\<forall>i<n self.
              pk ! i = dg_dv self dae (p self) i \<and> qk ! i = dg_dv self dae (q self) i \<and>
              (\<forall>nm.
                ((\<lambda>x. u self ! i * (below self ! i * (x\<^sup>2 / (vmin self ! i)\<^sup>2) +
                         above self ! i * (x\<^sup>2 / (vmax self ! i)\<^sup>2) + nm) * p self ! i)
                   has_real_derivative pk ! i) (at (y dae ! (v self ! i))) \<and>
                ((\<lambda>x. u self ! i * (below self ! i * (x\<^sup>2 / (vmin self ! i)\<^sup>2) +
                         above self ! i * (x\<^sup>2 / (vmax self ! i)\<^sup>2) + nm) * q self ! i)
                   has_real_derivative qk ! i) (at (y dae ! (v self ! i)))))"
proof -
  from gycall_default [OF assms] obtain pk qk where
    eq: "gycall cfg self dae =
           Inr (dae\<lparr>Gy := Gy dae @ zip (a self) (zip (v self) pk) @
                                     zip (v self) (zip (v self) qk)\<rparr>)" and
    len: "length pk = n self" "length qk = n self" and
    nth: "\<forall>i<n self. pk ! i = dg_dv self dae (p self) i \<and> qk ! i = dg_dv self dae (q self) i"
    by blast
  have "\<forall>i<n self.
              pk ! i = dg_dv self dae (p self) i \<and> qk ! i = dg_dv self dae (q self) i \<and>
              (\<forall>nm.
                ((\<lambda>x. u self ! i * (below self ! i * (x\<^sup>2 / (vmin self ! i)\<^sup>2) +
                         above self ! i * (x\<^sup>2 / (vmax self ! i)\<^sup>2) + nm) * p self ! i)
                   has_real_derivative pk ! i) (at (y dae ! (v self ! i))) \<and>
                ((\<lambda>x. u self ! i * (below self ! i * (x\<^sup>2 / (vmin self ! i)\<^sup>2) +
                         above self ! i * (x\<^sup>2 / (vmax self ! i)\<^sup>2) + nm) * q self ! i)
                   has_real_derivative qk ! i) (at (y dae ! (v self ! i))))"
  proof (intro allI impI)
    fix i assume "i < n self"
    with nth have e: "pk ! i = dg_dv self dae (p self) i" "qk ! i = dg_dv self dae (q self) i"
      by blast+
    show "pk ! i = dg_dv self dae (p self) i \<and> qk ! i = dg_dv self dae (q self) i \<and>
              (\<forall>nm.
                ((\<lambda>x. u self ! i * (below self ! i * (x\<^sup>2 / (vmin self ! i)\<^sup>2) +
                         above self ! i * (x\<^sup>2 / (vmax self ! i)\<^sup>2) + nm) * p self ! i)
                   has_real_derivative pk ! i) (at (y dae ! (v self ! i))) \<and>
                ((\<lambda>x. u self ! i * (below self ! i * (x\<^sup>2 / (vmin self ! i)\<^sup>2) +
                         above self ! i * (x\<^sup>2 / (vmax self ! i)\<^sup>2) + nm) * q self ! i)
                   has_real_derivative qk ! i) (at (y dae ! (v self ! i))))"
      unfolding e by (intro conjI allI refl dg_dv_derivative)
  qed
  with eq len show ?thesis by blast
qed

text \<open>
  Claim C6 as stated covers every instance of every pass. Under forced impedance with a
  reference voltage the pass stamps \<open>u * p * 2v / v0^2\<close> instead: for the load of the
  scenario at voltage 1 with reference 1, and both stored indicators 0, it stamps 4 and 1
  where the formula of the claim gives 0.
\<close>

theorem jacobian_stamp_counterexample:
  "gycall forcez_config (stored_load 1) (one_bus 1) =
     Inr ((one_bus 1)\<lparr>Gy := [(0, 1, 4), (1, 1, 1)]\<rparr>) \<and>
   dg_dv (stored_load 1) (one_bus 1) (p (stored_load 1)) 0 = 0 \<and>
   dg_dv (stored_load 1) (one_bus 1) (q (stored_load 1)) 0 = 0"
  by (simp add: run_defs dg_dv_def stored_load_def one_load_def one_bus_def forcez_config_def)

theorem jacobian_stamp_witness:
  "pq_ok ((stored_load 1)\<lparr>below := [1]\<rparr>) (one_bus (8 / 10)) \<and>
   limits_ok ((stored_load 1)\<lparr>below := [1]\<rparr>) \<and>
   length (below ((stored_load 1)\<lparr>below := [1]\<rparr>)) = n ((stored_load 1)\<lparr>below := [1]\<rparr>) \<and>
   length (above ((stored_load 1)\<lparr>below := [1]\<rparr>)) = n ((stored_load 1)\<lparr>below := [1]\<rparr>) \<and>
   \<not> forcez default_config \<and> \<not> forcepq default_config \<and>
   (\<exists>pk qk. gycall default_config ((stored_load 1)\<lparr>below := [1]\<rparr>) (one_bus (8 / 10)) =
      Inr ((one_bus (8 / 10))\<lparr>Gy := [(0, 1, pk), (1, 1, qk)]\<rparr>) \<and>
      pk = dg_dv ((stored_load 1)\<lparr>below := [1]\<rparr>) (one_bus (8 / 10)) [2] 0 \<and>
      qk = dg_dv ((stored_load 1)\<lparr>below := [1]\<rparr>) (one_bus (8 / 10)) [1 / 2] 0) \<and>
   gycall default_config ((stored_load 1)\<lparr>below := [1]\<rparr>) (one_bus (8 / 10)) =
     Inr ((one_bus (8 / 10))\<lparr>Gy := [(0, 1, 320 / 81), (1, 1, 80 / 81)]\<rparr>)"
proof -
  let ?s = "(stored_load 1)\<lparr>below := [1]\<rparr>"
  have h: "pq_ok ?s (one_bus (8 / 10))" "limits_ok ?s" "length (below ?s) = n ?s"
    "length (above ?s) = n ?s" "\<not> forcez default_config" "\<not> forcepq default_config"
    by (simp_all add: pq_ok_def limits_ok_def stored_load_def one_load_def one_bus_def
        default_config_def)
  from jacobian_stamp [OF h] obtain pk qk where
    eq: "gycall default_config ?s (one_bus (8 / 10)) =
           Inr ((one_bus (8 / 10))\<lparr>Gy := Gy (one_bus (8 / 10)) @ zip (a ?s) (zip (v ?s) pk) @
                                     zip (v ?s) (zip (v ?s) qk)\<rparr>)" and
    len: "length pk = n ?s" "length qk = n ?s" and
    nth: "\<forall>i<n ?s. pk ! i = dg_dv ?s (one_bus (8 / 10)) (p ?s) i \<and>
                      qk ! i = dg_dv ?s (one_bus (8 / 10)) (q ?s) i"
    by blast
  from len obtain pv qv where pq: "pk = [pv]" "qk = [qv]"
    by (auto simp: stored_load_def one_load_def length_Suc_conv)
  from nth have vals: "pv = dg_dv ?s (one_bus (8 / 10)) [2] 0" "qv = dg_dv ?s (one_bus (8 / 10)) [1 / 2] 0"
    unfolding pq by (simp_all add: stored_load_def one_load_def)
  have t: "\<exists>pk qk. gycall default_config ?s (one_bus (8 / 10)) =
      Inr ((one_bus (8 / 10))\<lparr>Gy := [(0, 1, pk), (1, 1, qk)]\<rparr>) \<and>
      pk = dg_dv ?s (one_bus (8 / 10)) [2] 0 \<and> qk = dg_dv ?s (one_bus (8 / 10)) [1 / 2] 0"
    apply (rule exI [of _ pv], rule exI [of _ qv])
    using eq vals unfolding pq by (simp add: stored_load_def one_load_def one_bus_def)
  have e: "gycall default_config ?s (one_bus (8 / 10)) =
     Inr ((one_bus (8 / 10))\<lparr>Gy := [(0, 1, 320 / 81), (1, 1, 80 / 81)]\<rparr>)"
    by (simp add: run_defs stored_load_def one_load_def one_bus_def default_config_def
        power2_eq_square)
  show ?thesis by (intro conjI h t e)
qed

section \<open>The forced-PQ configuration\<close>

lemma map2_mult_ones: "length xs = k \<Longrightarrow> map2 (*) xs (ones k) = (xs :: vec)"
  by (intro nth_equalityI) (simp_all add: ones_def)

lemma gycall_forcepq: "forcepq cfg \<Longrightarrow> gycall cfg self dae = Inr dae"
  by (simp add: gycall_def)

text \<open>With the forced-PQ flag set, the residual pass keeps the blend factor 1 unless the
  forced-impedance flag is set too and the reference voltage is true: \<open>gcall\<close> tests the
  forced-impedance flag first.\<close>

lemma gcall_forcepq:
  assumes ok: "pq_ok self dae" and fpq: "forcepq cfg"
    and nz: "forcez cfg \<longrightarrow> \<not> truthy (v0 self)"
  shows "gcall cfg self dae =
           Inr (self\<lparr>p0 := map2 (*) (u self) (p self), q0 := map2 (*) (u self) (q self)\<rparr>,
                 dae\<lparr>g := map (\<lambda>j. g dae ! j +
                    contrib (zip (a self) (zip (v self)
                      (zip (map2 (*) (u self) (p self)) (map2 (*) (u self) (q self))))) j)
                    [0..<length (g dae)]\<rparr>)"
proof -
  have k: "gcall_k cfg self dae = Inr (self, ones (n self))"
    using fpq nz by (auto simp: gcall_k_def Let_def)
  have "length (u self) = n self" using ok by (simp add: pq_ok_def)
  then have "map2 (*) (u self) (ones (n self)) = u self" by (rule map2_mult_ones)
  with gcall_closed [OF ok k] show ?thesis by simp
qed

text \<open>Where the claim holds: the forced-PQ flag is set and \<open>gcall\<close> does not reach the
  division of the forced-impedance branch. Then the contribution of every instance is
  \<open>u * p\<close> and \<open>u * q\<close> at every iterate, and \<open>gycall\<close> stamps nothing.\<close>

lemma forced_pq_holds:
  assumes ok: "pq_ok self dae" and fpq: "forcepq cfg"
    and nz: "forcez cfg \<longrightarrow> \<not> truthy (v0 self)"
  shows "(\<exists>s' d. gcall cfg self dae = Inr (s', d) \<and>
            length (p0 s') = n self \<and> length (q0 s') = n self \<and>
            (\<forall>i<n self. p0 s' ! i = u self ! i * p self ! i \<and>
                        q0 s' ! i = u self ! i * q self ! i) \<and>
            g d = map (\<lambda>j. g dae ! j +
                    contrib (zip (a self) (zip (v self) (zip (p0 s') (q0 s')))) j)
                    [0..<length (g dae)] \<and>
            (\<forall>w. length w = length (y dae) \<longrightarrow>
               gcall cfg self (dae\<lparr>y := w\<rparr>) = Inr (s', d\<lparr>y := w\<rparr>))) \<and>
         gycall cfg self dae = Inr dae"
proof -
  have jac: "gycall cfg self dae = Inr dae"
    using fpq by (rule gycall_forcepq)
  let ?s' = "self\<lparr>p0 := map2 (*) (u self) (p self), q0 := map2 (*) (u self) (q self)\<rparr>"
  let ?d = "dae\<lparr>g := map (\<lambda>j. g dae ! j +
                  contrib (zip (a self) (zip (v self)
                    (zip (map2 (*) (u self) (p self)) (map2 (*) (u self) (q self))))) j)
                  [0..<length (g dae)]\<rparr>"
  have len: "length (u self) = n self" "length (p self) = n self" "length (q self) = n self"
    using ok by (simp_all add: pq_ok_def)
  have e: "gcall cfg self dae = Inr (?s', ?d)"
    by (rule gcall_forcepq [OF ok fpq nz])
  have other: "gcall cfg self (dae\<lparr>y := w\<rparr>) = Inr (?s', ?d\<lparr>y := w\<rparr>)"
    if w: "length w = length (y dae)" for w
  proof -
    have "pq_ok self (dae\<lparr>y := w\<rparr>)" using ok w by (simp add: pq_ok_def)
    from gcall_forcepq [OF this fpq nz] show ?thesis by simp
  qed
  have res: "\<exists>s' d. gcall cfg self dae = Inr (s', d) \<and>
            length (p0 s') = n self \<and> length (q0 s') = n self \<and>
            (\<forall>i<n self. p0 s' ! i = u self ! i * p self ! i \<and>
                        q0 s' ! i = u self ! i * q self ! i) \<and>
            g d = map (\<lambda>j. g dae ! j +
                    contrib (zip (a self) (zip (v self) (zip (p0 s') (q0 s')))) j)
                    [0..<length (g dae)] \<and>
            (\<forall>w. length w = length (y dae) \<longrightarrow>
               gcall cfg self (dae\<lparr>y := w\<rparr>) = Inr (s', d\<lparr>y := w\<rparr>))"
    apply (rule exI [of _ ?s'], rule exI [of _ ?d])
    using e len other by simp
  from res jac show ?thesis by blast
qed

text \<open>The load of the scenario under the forced-PQ flag alone, and under both flags
  with the reference voltage never set: the contributions are \<open>u * p\<close> = 2 and \<open>u * q\<close> = 1/2
  at voltage 0.8, and nothing is stamped.\<close>

lemma forced_pq_examples:
  "gcall forcepq_config one_load (one_bus (8 / 10)) =
     Inr (one_load\<lparr>p0 := [2], q0 := [1 / 2]\<rparr>, (one_bus (8 / 10))\<lparr>g := [2, 1 / 2]\<rparr>)"
  "gycall forcepq_config one_load (one_bus (8 / 10)) = Inr (one_bus (8 / 10))"
  "gcall both_config one_load (one_bus (8 / 10)) =
     Inr (one_load\<lparr>p0 := [2], q0 := [1 / 2]\<rparr>, (one_bus (8 / 10))\<lparr>g := [2, 1 / 2]\<rparr>)"
  by (simp_all add: run_defs one_load_def one_bus_def forcepq_config_def both_config_def)

text \<open>
  Claim C10. When the forced-PQ flag is set, the contribution of every enabled instance
  is \<open>u * p\<close> and \<open>u * q\<close> whatever the voltage, and the Jacobian pass stamps nothing. The
  source does not do this when the forced-impedance flag is set as well and the reference
  voltage is true: \<open>gcall\<close> tests the forced-impedance flag first (lines 77 to 81), while
  \<open>gycall\<close> tests the forced-PQ flag first (lines 117 to 119). For the load of the
  scenario with both flags and reference voltage 1, \<open>gcall\<close> contributes 32/25 and 8/25
  at voltage 0.8 and 2 and 1/2 at voltage 1, where \<open>u * p\<close> = 2 and \<open>u * q\<close> = 1/2; and
  \<open>gycall\<close> stamps nothing for that voltage-dependent residual.
\<close>

theorem forced_pq_both_flags:
  "forcepq both_config \<and> forcez both_config \<and> truthy (v0 (stored_load 1)) \<and>
   gcall both_config (stored_load 1) (one_bus (8 / 10)) =
     Inr ((stored_load 1)\<lparr>p0 := [32 / 25], q0 := [8 / 25]\<rparr>,
           (one_bus (8 / 10))\<lparr>g := [32 / 25, 8 / 25]\<rparr>) \<and>
   gcall both_config (stored_load 1) (one_bus 1) =
     Inr ((stored_load 1)\<lparr>p0 := [2], q0 := [1 / 2]\<rparr>, (one_bus 1)\<lparr>g := [2, 1 / 2]\<rparr>) \<and>
   u (stored_load 1) ! 0 * p (stored_load 1) ! 0 = 2 \<and>
   u (stored_load 1) ! 0 * q (stored_load 1) ! 0 = 1 / 2 \<and>
   gycall both_config (stored_load 1) (one_bus (8 / 10)) = Inr (one_bus (8 / 10))"
proof -
  have flags: "forcepq both_config" "forcez both_config" "truthy (v0 (stored_load 1))"
    by (simp_all add: both_config_def truthy_def stored_load_def)
  have low: "gcall both_config (stored_load 1) (one_bus (8 / 10)) =
     Inr ((stored_load 1)\<lparr>p0 := [32 / 25], q0 := [8 / 25]\<rparr>,
           (one_bus (8 / 10))\<lparr>g := [32 / 25, 8 / 25]\<rparr>)"
    by (simp add: run_defs stored_load_def one_load_def one_bus_def both_config_def
        power2_eq_square)
  have unit: "gcall both_config (stored_load 1) (one_bus 1) =
     Inr ((stored_load 1)\<lparr>p0 := [2], q0 := [1 / 2]\<rparr>, (one_bus 1)\<lparr>g := [2, 1 / 2]\<rparr>)"
    by (simp add: run_defs stored_load_def one_load_def one_bus_def both_config_def)
  have claimed: "u (stored_load 1) ! 0 * p (stored_load 1) ! 0 = 2"
    "u (stored_load 1) ! 0 * q (stored_load 1) ! 0 = 1 / 2"
    by (simp_all add: stored_load_def one_load_def)
  have jac: "gycall both_config (stored_load 1) (one_bus (8 / 10)) = Inr (one_bus (8 / 10))"
    using flags(1) by (rule gycall_forcepq)
  show ?thesis by (intro conjI flags low unit claimed jac)
qed

section \<open>Disabled instances\<close>

text \<open>What a returning pass has done, whatever the configuration.\<close>

lemma gcall_InrD:
  assumes "gcall cfg self dae = Inr r"
  shows "\<exists>s k. gcall_k cfg self dae = Inr (s, k)"
  using assms unfolding gcall_def by (auto simp: and_then_eq_Inr)

lemma gycall_InrD:
  assumes ok: "pq_ok self dae" and eq: "gycall cfg self dae = Inr d2"
  shows "d2 = dae \<or>
         (\<exists>k. length k = n self \<and>
            d2 = dae\<lparr>Gy := Gy dae @
                   zip (a self) (zip (v self) (map2 (*) (p self) (map2 (*) (u self) k))) @
                   zip (v self) (zip (v self) (map2 (*) (q self) (map2 (*) (u self) k)))\<rparr>)"
proof (cases "forcepq cfg")
  case True
  with eq show ?thesis by (simp add: gycall_def)
next
  case False
  with eq obtain k0 k pk d1 qk where
    steps: "mul (u self) k0 = Inr k" "mul (p self) k = Inr pk"
      "add_jac dae pk (a self) (v self) = Inr d1" "mul (q self) k = Inr qk"
      "add_jac d1 qk (v self) (v self) = Inr d2"
    unfolding gycall_def by (auto simp: Let_def and_then_eq_Inr)
  from steps(1) have k: "length k0 = length (u self)" "k = map2 (*) (u self) k0"
    by (auto simp: mul_def split: if_splits)
  from steps(2) have pk: "pk = map2 (*) (p self) k"
    by (auto simp: mul_def split: if_splits)
  from steps(4) have qk: "qk = map2 (*) (q self) k"
    by (auto simp: mul_def split: if_splits)
  from steps(3) have d1: "d1 = dae\<lparr>Gy := Gy dae @ zip (a self) (zip (v self) pk)\<rparr>"
    by (auto simp: add_jac_def split: if_splits)
  from steps(5) have d2: "d2 = d1\<lparr>Gy := Gy d1 @ zip (v self) (zip (v self) qk)\<rparr>"
    by (auto simp: add_jac_def split: if_splits)
  have "length k0 = n self" using k(1) ok by (simp add: pq_ok_def)
  then show ?thesis
    unfolding d2 d1 pk qk k(2) by (intro disjI2 exI [of _ k0]) simp
qed

text \<open>Offsets and cells that only instances with zero values address receive zero.\<close>

lemma sum_list_zero: "(\<And>x. x \<in> set xs \<Longrightarrow> f x = (0::real)) \<Longrightarrow> sum_list (map f xs) = 0"
  by (induction xs) simp_all

lemma contrib_zero:
  assumes len: "length as = length vs" "length vs = length ps" "length ps = length qs"
    and z: "\<And>j. j < length as \<Longrightarrow> as ! j = r \<or> vs ! j = r \<Longrightarrow> ps ! j = 0 \<and> qs ! j = 0"
  shows "contrib (zip as (zip vs (zip ps qs))) r = 0"
  unfolding contrib_def
proof (rule sum_list_zero)
  fix x assume "x \<in> set (zip as (zip vs (zip ps qs)))"
  then obtain j where j: "j < length as" and x: "x = (as ! j, vs ! j, ps ! j, qs ! j)"
    using len by (auto simp: in_set_conv_nth)
  show "(case x of (ai, vi, pv, qv) \<Rightarrow> (if ai = r then pv else 0) + (if vi = r then qv else 0)) = 0"
    using z [OF j] by (auto simp: x)
qed

lemma jac_cell_append: "jac_cell (xs @ ys) r c = jac_cell xs r c + jac_cell ys r c"
  by (simp add: jac_cell_def)

lemma jac_cell_zero:
  assumes len: "length rows = length cols" "length cols = length vals"
    and z: "\<And>j. j < length rows \<Longrightarrow> rows ! j = r \<Longrightarrow> cols ! j = c \<Longrightarrow> vals ! j = 0"
  shows "jac_cell (zip rows (zip cols vals)) r c = 0"
  unfolding jac_cell_def
proof (rule sum_list_zero)
  fix x assume "x \<in> set (filter (\<lambda>(i, j, x). i = r \<and> j = c) (zip rows (zip cols vals)))"
  then obtain j where j: "j < length rows" and x: "x = (rows ! j, cols ! j, vals ! j)"
    and rc: "rows ! j = r" "cols ! j = c"
    using len by (auto simp: in_set_conv_nth)
  show "(case x of (i, j, x) \<Rightarrow> x) = 0"
    using z [OF j rc] by (simp add: x)
qed


text \<open>Leaving out of the loop an instance whose two powers are zero changes nothing.\<close>

lemma in_range_skip:
  assumes "in_range len insts"
  shows "in_range len (take i insts @ drop (Suc i) insts)"
proof -
  have "set (take i insts @ drop (Suc i) insts) \<subseteq> set insts"
    using set_take_subset [of i insts] set_drop_subset [of "Suc i" insts] by auto
  with assms show ?thesis
    unfolding in_range_def list_all_iff by blast
qed

lemma contrib_skip:
  assumes i: "i < length insts" and z: "insts ! i = (ai, vi, 0, 0)"
  shows "contrib (take i insts @ drop (Suc i) insts) j = contrib insts j"
proof -
  have "insts = take i insts @ insts ! i # drop (Suc i) insts"
    using i by (rule id_take_nth_drop)
  then have "contrib insts j = contrib (take i insts @ (ai, vi, 0, 0) # drop (Suc i) insts) j"
    using z by simp
  also have "\<dots> = contrib (take i insts) j + contrib (drop (Suc i) insts) j"
    by (simp add: contrib_append contrib_Cons)
  finally show ?thesis by (simp add: contrib_append)
qed

lemma g_loop_skip:
  assumes r: "in_range (length gs) insts" and i: "i < length insts"
    and z: "insts ! i = (ai, vi, 0, 0)"
  shows "g_loop gs (take i insts @ drop (Suc i) insts) = g_loop gs insts"
  by (simp add: g_loop_closed r in_range_skip [OF r] contrib_skip [OF i z])

text \<open>
  Claim C9. For an instance \<open>i\<close> with \<open>u = 0\<close>, in every configuration and at every voltage,
  a residual pass and a Jacobian pass that return contribute zero for it: the powers
  \<open>p0\<close> and \<open>q0\<close> that \<open>gcall\<close> adds at its addresses are 0, and \<open>gycall\<close> either stamps
  nothing or stamps the value 0 for it in both cells. The residual is the one the loop
  gives with the instance left out, and a residual entry that only disabled instances
  address, and a Jacobian cell that only disabled instances stamp, is unchanged by the
  passes.
\<close>

theorem disabled_instance:
  assumes ok: "pq_ok self dae" and i: "i < n self" and off: "u self ! i = 0"
    and res: "gcall cfg self dae = Inr (s', d)" and jac: "gycall cfg self dae = Inr d2"
  shows "p0 s' ! i = 0 \<and> q0 s' ! i = 0 \<and>
         (\<exists>pk qk. length pk = n self \<and> length qk = n self \<and> pk ! i = 0 \<and> qk ! i = 0 \<and>
            (Gy d2 = Gy dae \<or>
             Gy d2 = Gy dae @ zip (a self) (zip (v self) pk) @ zip (v self) (zip (v self) qk))) \<and>
         g_loop (g dae)
           (take i (zip (a self) (zip (v self) (zip (p0 s') (q0 s')))) @
            drop (Suc i) (zip (a self) (zip (v self) (zip (p0 s') (q0 s'))))) = Inr (g d) \<and>
         (\<forall>r<length (g dae).
            (\<forall>j<n self. a self ! j = r \<or> v self ! j = r \<longrightarrow> u self ! j = 0) \<longrightarrow>
            g d ! r = g dae ! r) \<and>
         (\<forall>r c.
            (\<forall>j<n self. (a self ! j = r \<or> v self ! j = r) \<and> v self ! j = c \<longrightarrow> u self ! j = 0) \<longrightarrow>
            jac_cell (Gy d2) r c = jac_cell (Gy dae) r c)"
proof -
  have len: "length (a self) = n self" "length (v self) = n self" "length (u self) = n self"
    "length (p self) = n self" "length (q self) = n self"
    using ok by (simp_all add: pq_ok_def)
  from gcall_InrD [OF res] obtain s k where gk: "gcall_k cfg self dae = Inr (s, k)" by blast
  from gcall_k_frame [OF ok gk] have lk: "length k = n self" by simp
  let ?p0 = "map2 (*) (map2 (*) (u self) k) (p self)"
  let ?q0 = "map2 (*) (map2 (*) (u self) k) (q self)"
  from gcall_closed [OF ok gk] res have
    s': "s' = s\<lparr>p0 := ?p0, q0 := ?q0\<rparr>" and
    d: "d = dae\<lparr>g := map (\<lambda>j. g dae ! j +
                    contrib (zip (a self) (zip (v self) (zip ?p0 ?q0))) j)
                    [0..<length (g dae)]\<rparr>"
    by simp_all
  have pw: "?p0 ! j = u self ! j * k ! j * p self ! j" "?q0 ! j = u self ! j * k ! j * q self ! j"
    if "j < n self" for j
    using that len lk by simp_all
  have zero: "p0 s' ! i = 0" "q0 s' ! i = 0"
    unfolding s' using pw [OF i] off by simp_all
  have skip: "g_loop (g dae)
           (take i (zip (a self) (zip (v self) (zip (p0 s') (q0 s')))) @
            drop (Suc i) (zip (a self) (zip (v self) (zip (p0 s') (q0 s'))))) = Inr (g d)"
  proof -
    let ?insts = "zip (a self) (zip (v self) (zip ?p0 ?q0))"
    have r: "in_range (length (g dae)) ?insts"
      using ok by (simp add: in_range_zip len lk pq_ok_def)
    have li: "i < length ?insts" using i by (simp add: len lk)
    have zi: "?insts ! i = (a self ! i, v self ! i, 0, 0)"
      using i pw [OF i] off by (simp add: len lk)
    have "g_loop (g dae) ?insts = Inr (g d)"
      unfolding d by (simp add: g_loop_closed r)
    with g_loop_skip [OF r li zi] show ?thesis unfolding s' by simp
  qed
  have frame_g: "g d ! r = g dae ! r"
    if r: "r < length (g dae)"
      and dis: "\<forall>j<n self. a self ! j = r \<or> v self ! j = r \<longrightarrow> u self ! j = 0" for r
  proof -
    have "contrib (zip (a self) (zip (v self) (zip ?p0 ?q0))) r = 0"
    proof (rule contrib_zero)
      fix j assume j: "j < length (a self)" and at: "a self ! j = r \<or> v self ! j = r"
      from j have jn: "j < n self" by (simp add: len)
      with dis at have "u self ! j = 0" by blast
      with pw [OF jn] show "?p0 ! j = 0 \<and> ?q0 ! j = 0" by simp
    qed (simp_all add: len lk)
    with r show ?thesis unfolding d by simp
  qed
  from gycall_InrD [OF ok jac] consider (none) "d2 = dae" | (stamped) kj where
    "length kj = n self"
    "d2 = dae\<lparr>Gy := Gy dae @
            zip (a self) (zip (v self) (map2 (*) (p self) (map2 (*) (u self) kj))) @
            zip (v self) (zip (v self) (map2 (*) (q self) (map2 (*) (u self) kj)))\<rparr>"
    by blast
  then have stamps: "\<exists>pk qk. length pk = n self \<and> length qk = n self \<and>
      (\<forall>j<n self. u self ! j = 0 \<longrightarrow> pk ! j = 0 \<and> qk ! j = 0) \<and>
      (Gy d2 = Gy dae \<or>
       Gy d2 = Gy dae @ zip (a self) (zip (v self) pk) @ zip (v self) (zip (v self) qk))"
  proof cases
    case none
    show ?thesis
      by (rule exI [of _ "replicate (n self) 0"], rule exI [of _ "replicate (n self) 0"])
         (simp add: none)
  next
    case stamped
    show ?thesis
      by (rule exI [of _ "map2 (*) (p self) (map2 (*) (u self) kj)"],
          rule exI [of _ "map2 (*) (q self) (map2 (*) (u self) kj)"])
         (simp add: stamped len)
  qed
  then obtain pk qk where
    lj: "length pk = n self" "length qk = n self" and
    zj: "\<forall>j<n self. u self ! j = 0 \<longrightarrow> pk ! j = 0 \<and> qk ! j = 0" and
    gy: "Gy d2 = Gy dae \<or>
         Gy d2 = Gy dae @ zip (a self) (zip (v self) pk) @ zip (v self) (zip (v self) qk)"
    by blast
  from zj i off have zi: "pk ! i = 0" "qk ! i = 0" by simp_all
  have frame_j: "jac_cell (Gy d2) r c = jac_cell (Gy dae) r c"
    if dis: "\<forall>j<n self. (a self ! j = r \<or> v self ! j = r) \<and> v self ! j = c \<longrightarrow> u self ! j = 0"
    for r c
  proof -
    have one: "jac_cell (zip (a self) (zip (v self) pk)) r c = 0"
    proof (rule jac_cell_zero)
      fix j assume "j < length (a self)" "a self ! j = r" "v self ! j = c"
      with dis zj show "pk ! j = 0" by (simp add: len)
    qed (simp_all add: len lj)
    have two: "jac_cell (zip (v self) (zip (v self) qk)) r c = 0"
    proof (rule jac_cell_zero)
      fix j assume "j < length (v self)" "v self ! j = r" "v self ! j = c"
      with dis zj show "qk ! j = 0" by (simp add: len)
    qed (simp_all add: len lj)
    from gy show ?thesis
      by (auto simp: jac_cell_append one two)
  qed
  have jpart: "\<exists>pk qk. length pk = n self \<and> length qk = n self \<and> pk ! i = 0 \<and> qk ! i = 0 \<and>
            (Gy d2 = Gy dae \<or>
             Gy d2 = Gy dae @ zip (a self) (zip (v self) pk) @ zip (v self) (zip (v self) qk))"
    using lj zi gy by blast
  from zero jpart skip frame_g frame_j show ?thesis by blast
qed


theorem disabled_instance_witness:
  "pq_ok ((stored_load 1)\<lparr>u := [0]\<rparr>) (one_bus (8 / 10)) \<and>
   0 < n ((stored_load 1)\<lparr>u := [0]\<rparr>) \<and> u ((stored_load 1)\<lparr>u := [0]\<rparr>) ! 0 = 0 \<and>
   gcall forcez_config ((stored_load 1)\<lparr>u := [0]\<rparr>) (one_bus (8 / 10)) =
     Inr ((stored_load 1)\<lparr>u := [0], p0 := [0], q0 := [0]\<rparr>, one_bus (8 / 10)) \<and>
   gycall forcez_config ((stored_load 1)\<lparr>u := [0]\<rparr>) (one_bus (8 / 10)) =
     Inr ((one_bus (8 / 10))\<lparr>Gy := [(0, 1, 0), (1, 1, 0)]\<rparr>) \<and>
   p0 ((stored_load 1)\<lparr>u := [0], p0 := [0], q0 := [0]\<rparr>) ! 0 = 0 \<and>
   q0 ((stored_load 1)\<lparr>u := [0], p0 := [0], q0 := [0]\<rparr>) ! 0 = 0 \<and>
   jac_cell (Gy ((one_bus (8 / 10))\<lparr>Gy := [(0, 1, 0), (1, 1, 0)]\<rparr>)) 0 1 =
     jac_cell (Gy (one_bus (8 / 10))) 0 1 \<and>
   jac_cell (Gy ((one_bus (8 / 10))\<lparr>Gy := [(0, 1, 0), (1, 1, 0)]\<rparr>)) 1 1 =
     jac_cell (Gy (one_bus (8 / 10))) 1 1"
proof -
  let ?s = "(stored_load 1)\<lparr>u := [0]\<rparr>"
  let ?d = "one_bus (8 / 10)"
  have h: "pq_ok ?s ?d" "0 < n ?s" "u ?s ! 0 = 0"
    by (simp_all add: pq_ok_def stored_load_def one_load_def one_bus_def)
  have e1: "gcall forcez_config ?s ?d = Inr ((stored_load 1)\<lparr>u := [0], p0 := [0], q0 := [0]\<rparr>, ?d)"
    by (simp add: run_defs stored_load_def one_load_def one_bus_def forcez_config_def)
  have e2: "gycall forcez_config ?s ?d = Inr (?d\<lparr>Gy := [(0, 1, 0), (1, 1, 0)]\<rparr>)"
    by (simp add: run_defs stored_load_def one_load_def one_bus_def forcez_config_def)
  have all_off: "\<forall>j<n ?s. (a ?s ! j = r \<or> v ?s ! j = r) \<and> v ?s ! j = c \<longrightarrow> u ?s ! j = 0" for r c
    by (simp add: stored_load_def one_load_def)
  note t = disabled_instance [OF h e1 e2]
  have t1: "p0 ((stored_load 1)\<lparr>u := [0], p0 := [0], q0 := [0]\<rparr>) ! 0 = 0"
    "q0 ((stored_load 1)\<lparr>u := [0], p0 := [0], q0 := [0]\<rparr>) ! 0 = 0"
    using t by blast+
  have t2: "jac_cell (Gy (?d\<lparr>Gy := [(0, 1, 0), (1, 1, 0)]\<rparr>)) r c = jac_cell (Gy ?d) r c" for r c
    using t all_off [of r c] by blast
  show ?thesis by (intro conjI h e1 e2 t1 t2)
qed

section \<open>Division by zero\<close>















section \<open>The indicators\<close>

text \<open>
  Claim C1, amended: the indicators of \<open>gcall\<close> follow open bounds. For instance \<open>i\<close> of
  the switching branch, below is 1 exactly when the voltage is strictly less than the
  lower threshold, above is 1 exactly when it is strictly greater than the upper
  threshold, and within (\<open>normal\<close>, the negation of below-or-above) is 1 exactly when the
  voltage lies between the thresholds, both ends included. The order of the thresholds
  is not needed for this.
\<close>

theorem indicator_open_bounds:
  assumes "pq_ok self dae" and "limits_ok self" and "i < n self"
  shows "\<exists>s k nm. gcall_switch self dae = Inr (s, k, nm) \<and>
            (below s ! i = 1 \<longleftrightarrow> y dae ! (v self ! i) < vmin self ! i) \<and>
            (nm ! i = 1 \<longleftrightarrow>
               vmin self ! i \<le> y dae ! (v self ! i) \<and> y dae ! (v self ! i) \<le> vmax self ! i) \<and>
            (above s ! i = 1 \<longleftrightarrow> y dae ! (v self ! i) > vmax self ! i)"
proof -
  from gcall_switch_nth [OF assms(1,2)] obtain bl ab k nm where
    eq: "gcall_switch self dae = Inr (self\<lparr>below := bl, above := ab\<rparr>, k, nm)" and
    nth: "\<forall>i<n self.
              bl ! i = (if y dae ! (v self ! i) < vmin self ! i then 1 else 0) \<and>
              ab ! i = (if y dae ! (v self ! i) > vmax self ! i then 1 else 0) \<and>
              nm ! i = (if bl ! i \<noteq> 0 \<or> ab ! i \<noteq> 0 then 0 else 1) \<and>
              k ! i = bl ! i * ((y dae ! (v self ! i))\<^sup>2 / (vmin self ! i)\<^sup>2) +
                      ab ! i * ((y dae ! (v self ! i))\<^sup>2 / (vmax self ! i)\<^sup>2) + nm ! i"
    by blast
  from nth assms(3) have
    "(bl ! i = 1 \<longleftrightarrow> y dae ! (v self ! i) < vmin self ! i) \<and>
     (nm ! i = 1 \<longleftrightarrow>
        vmin self ! i \<le> y dae ! (v self ! i) \<and> y dae ! (v self ! i) \<le> vmax self ! i) \<and>
     (ab ! i = 1 \<longleftrightarrow> y dae ! (v self ! i) > vmax self ! i)"
    by auto
  with eq show ?thesis by simp
qed

text \<open>
  Claim C1 as stated has closed bounds: above is 1 when the voltage is at least the upper
  threshold. For the load of the scenario, with thresholds 0.9 and 1.1, at a voltage of
  exactly 1.1 the branch stores below = 0 and above = 0, and within is 1 with blend
  factor 1: the load is still in the normal band.
\<close>

theorem indicator_open_bounds_counterexample:
  "y (one_bus (11 / 10)) ! (v one_load ! 0) = 11 / 10 \<and>
   vmin one_load ! 0 = 9 / 10 \<and> vmax one_load ! 0 = 11 / 10 \<and>
   gcall_switch one_load (one_bus (11 / 10)) =
     Inr (one_load\<lparr>below := [0], above := [0]\<rparr>, [1], [1])"
  by (simp add: gcall_switch_def getitem_def altb_def agtb_def aorb_def nota_def mul_def
      ediv_def iadd_def sq_def zeros_def ones_def Let_def one_load_def one_bus_def)

theorem indicator_open_bounds_witness:
  "pq_ok one_load (one_bus (11 / 10)) \<and> limits_ok one_load \<and> 0 < n one_load \<and>
   (\<exists>s k nm. gcall_switch one_load (one_bus (11 / 10)) = Inr (s, k, nm) \<and>
      below s ! 0 \<noteq> 1 \<and> nm ! 0 = 1 \<and> above s ! 0 \<noteq> 1)"
proof -
  have h: "pq_ok one_load (one_bus (11 / 10))" "limits_ok one_load" "0 < n one_load"
    by (rule one_load_ok)+
  from indicator_open_bounds [OF h] h show ?thesis
    by (simp add: one_load_def one_bus_def)
qed


text \<open>
  Claim C2. For thresholds with lower < upper, exactly one of below, within and above is 1
  and the other two are 0, for every instance of \<open>gcall\<close>'s switching branch and for the
  comparator of \<open>PQNew\<close>.
\<close>

theorem partition_invariant:
  assumes "pq_ok self dae" and "limits_ok self" and "i < n self"
    and "vmin self ! i < vmax self ! i" and "lower < upper"
  shows "(\<exists>s k nm. gcall_switch self dae = Inr (s, k, nm) \<and>
            (below s ! i = 1 \<and> nm ! i = 0 \<and> above s ! i = 0 \<or>
             below s ! i = 0 \<and> nm ! i = 1 \<and> above s ! i = 0 \<or>
             below s ! i = 0 \<and> nm ! i = 0 \<and> above s ! i = 1)) \<and>
         (zl (Comparer val lower upper) = 1 \<and> zi (Comparer val lower upper) = 0 \<and>
            zu (Comparer val lower upper) = 0 \<or>
          zl (Comparer val lower upper) = 0 \<and> zi (Comparer val lower upper) = 1 \<and>
            zu (Comparer val lower upper) = 0 \<or>
          zl (Comparer val lower upper) = 0 \<and> zi (Comparer val lower upper) = 0 \<and>
            zu (Comparer val lower upper) = 1)"
proof -
  from gcall_switch_nth [OF assms(1,2)] obtain bl ab k nm where
    eq: "gcall_switch self dae = Inr (self\<lparr>below := bl, above := ab\<rparr>, k, nm)" and
    nth: "\<forall>i<n self.
              bl ! i = (if y dae ! (v self ! i) < vmin self ! i then 1 else 0) \<and>
              ab ! i = (if y dae ! (v self ! i) > vmax self ! i then 1 else 0) \<and>
              nm ! i = (if bl ! i \<noteq> 0 \<or> ab ! i \<noteq> 0 then 0 else 1) \<and>
              k ! i = bl ! i * ((y dae ! (v self ! i))\<^sup>2 / (vmin self ! i)\<^sup>2) +
                      ab ! i * ((y dae ! (v self ! i))\<^sup>2 / (vmax self ! i)\<^sup>2) + nm ! i"
    by blast
  from nth assms(3,4) have
    "bl ! i = 1 \<and> nm ! i = 0 \<and> ab ! i = 0 \<or>
     bl ! i = 0 \<and> nm ! i = 1 \<and> ab ! i = 0 \<or>
     bl ! i = 0 \<and> nm ! i = 0 \<and> ab ! i = 1"
    by auto
  with eq have "\<exists>s k nm. gcall_switch self dae = Inr (s, k, nm) \<and>
            (below s ! i = 1 \<and> nm ! i = 0 \<and> above s ! i = 0 \<or>
             below s ! i = 0 \<and> nm ! i = 1 \<and> above s ! i = 0 \<or>
             below s ! i = 0 \<and> nm ! i = 0 \<and> above s ! i = 1)"
    by simp
  with assms(5) show ?thesis by (simp add: Comparer_def)
qed

theorem partition_invariant_witness:
  "pq_ok one_load (one_bus 1) \<and> limits_ok one_load \<and> 0 < n one_load \<and>
   vmin one_load ! 0 < vmax one_load ! 0 \<and> (9 / 10 :: real) < 11 / 10 \<and>
   (\<exists>s k nm. gcall_switch one_load (one_bus 1) = Inr (s, k, nm) \<and>
      (below s ! 0 = 1 \<and> nm ! 0 = 0 \<and> above s ! 0 = 0 \<or>
       below s ! 0 = 0 \<and> nm ! 0 = 1 \<and> above s ! 0 = 0 \<or>
       below s ! 0 = 0 \<and> nm ! 0 = 0 \<and> above s ! 0 = 1)) \<and>
   zl (Comparer 1 (9 / 10) (11 / 10)) = 0 \<and> zi (Comparer 1 (9 / 10) (11 / 10)) = 1 \<and>
   zu (Comparer 1 (9 / 10) (11 / 10)) = 0"
proof -
  have h: "pq_ok one_load (one_bus 1)" "limits_ok one_load" "0 < n one_load"
    by (rule one_load_ok)+
  have lt: "vmin one_load ! 0 < vmax one_load ! 0" "(9 / 10 :: real) < 11 / 10"
    by (simp_all add: one_load_def)
  from partition_invariant [OF h lt, of 1] h lt show ?thesis
    by (simp add: Comparer_def)
qed

section \<open>Composition fails on an undefined name\<close>

lemma compile_undefined:
  assumes "x \<in> set (referenced mo)" and "x \<notin> set (known mo)"
  shows "\<exists>z. compile mo = Inl (UndefinedSymbol z) \<and> z \<in> set (referenced mo) \<and> z \<notin> set (known mo)"
proof -
  let ?bad = "filter (\<lambda>x. x \<notin> set (known mo)) (referenced mo)"
  from assms have "x \<in> set ?bad" by simp
  then obtain z rest where bad: "?bad = z # rest" by (cases ?bad) auto
  then have "z \<in> set ?bad" by simp
  then have "z \<in> set (referenced mo)" "z \<notin> set (known mo)" by simp_all
  moreover have "compile mo = Inl (UndefinedSymbol z)"
    unfolding compile_def bad by simp
  ultimately show ?thesis by blast
qed

text \<open>
  Claim C8. Against the compiler and \<open>initialize\<close> as sections 4.3, 6 and 7 of the spec
  describe them: if a declaration of a model refers to a name that the model neither
  declares nor reaches through a bound reference, compiling the model fails with
  UndefinedSymbol for such a name, and \<open>initialize\<close> of any list of models that holds it
  fails with a ModelCompositionError whose causes include that UndefinedSymbol, whatever
  the resolver reports; it returns no system. The model \<open>TCSC\<close> of the source, whose
  references use the undeclared index column \<open>syn\<close>, is such a model.
\<close>

theorem undefined_symbol_fails:
  assumes "mo \<in> set ms" and "x \<in> set (referenced mo)" and "x \<notin> set (known mo)"
  shows "\<exists>z cs. compile mo = Inl (UndefinedSymbol z) \<and>
           z \<in> set (referenced mo) \<and> z \<notin> set (known mo) \<and>
           initialize resolve ms = Inl (ModelCompositionError cs) \<and>
           UndefinedSymbol z \<in> set cs \<and>
           (\<forall>sys. initialize resolve ms \<noteq> Inr sys)"
proof -
  from compile_undefined [OF assms(2,3)] obtain z where
    z: "compile mo = Inl (UndefinedSymbol z)" "z \<in> set (referenced mo)" "z \<notin> set (known mo)"
    by blast
  let ?cs = "concat (map (model_causes resolve) ms)"
  have "UndefinedSymbol z \<in> set (model_causes resolve mo)"
    by (simp add: model_causes_def z(1))
  with assms(1) have mem: "UndefinedSymbol z \<in> set ?cs" by auto
  then have "?cs \<noteq> []" by (cases ?cs) simp_all
  then have init: "initialize resolve ms = Inl (ModelCompositionError ?cs)"
    by (simp add: initialize_def)
  then have "\<forall>sys. initialize resolve ms \<noteq> Inr sys" by simp
  with z init mem show ?thesis by blast
qed

theorem undefined_symbol_fails_witness:
  "TCSC \<in> set [TCSC] \<and> ''syn'' \<in> set (referenced TCSC) \<and> ''syn'' \<notin> set (known TCSC) \<and>
   compile TCSC = Inl (UndefinedSymbol ''syn'') \<and>
   initialize (\<lambda>mo. []) [TCSC] = Inl (ModelCompositionError [UndefinedSymbol ''syn'']) \<and>
   (\<exists>z cs. compile TCSC = Inl (UndefinedSymbol z) \<and>
      initialize (\<lambda>mo. []) [TCSC] = Inl (ModelCompositionError cs) \<and> UndefinedSymbol z \<in> set cs)"
proof -
  have h: "TCSC \<in> set [TCSC]" "''syn'' \<in> set (referenced TCSC)" "''syn'' \<notin> set (known TCSC)"
    by (simp_all add: referenced_def known_def TCSC_def TCSCBaseData_def TCSCBase_def)
  have c: "compile TCSC = Inl (UndefinedSymbol ''syn'')"
    by (simp add: compile_def referenced_def known_def TCSC_def TCSCBaseData_def TCSCBase_def)
  have i: "initialize (\<lambda>mo. []) [TCSC] = Inl (ModelCompositionError [UndefinedSymbol ''syn''])"
    by (simp add: initialize_def model_causes_def declare_all_def c)
       (simp add: known_def TCSC_def TCSCBaseData_def TCSCBase_def)
  have t: "\<exists>z cs. compile TCSC = Inl (UndefinedSymbol z) \<and>
      initialize (\<lambda>mo. []) [TCSC] = Inl (ModelCompositionError cs) \<and> UndefinedSymbol z \<in> set cs"
    using undefined_symbol_fails [OF h, of "\<lambda>mo. []"] by blast
  show ?thesis by (intro conjI h c i t)
qed

end
